theory Spec2Isabelle
  imports Main "HOL-Library.Multiset" "HOL-Library.Sublist"
begin

section \<open>Python string primitives used by ccpp_capgen.py\<close>

text \<open>
  Strings are byte lists. \<open>str.lower\<close> is modelled on the ASCII letters, which is what
  Fortran identifiers and metadata property values are made of.
\<close>

definition lower_chr :: "char \<Rightarrow> char" where
  "lower_chr c =
     (case map_of (zip ''ABCDEFGHIJKLMNOPQRSTUVWXYZ'' ''abcdefghijklmnopqrstuvwxyz'') c of
        None \<Rightarrow> c
      | Some d \<Rightarrow> d)"

definition lower :: "string \<Rightarrow> string" where
  "lower s = map lower_chr s"

text \<open>The ASCII characters for which \<open>str.isspace\<close> holds; \<open>str.strip\<close> removes them at both ends.\<close>

definition is_space :: "char \<Rightarrow> bool" where
  "is_space c =
     (c \<in> set [CHR 0x09, CHR 0x0A, CHR 0x0B, CHR 0x0C, CHR 0x0D,
                CHR 0x1C, CHR 0x1D, CHR 0x1E, CHR 0x1F, CHR 0x20])"

definition strip :: "string \<Rightarrow> string" where
  "strip s = rev (dropWhile is_space (rev (dropWhile is_space s)))"

text \<open>\<open>s.split(d)\<close> for a one-character separator: never the empty list.\<close>

fun split_on :: "char \<Rightarrow> string \<Rightarrow> string list" where
  "split_on d [] = [[]]"
| "split_on d (c # cs) =
     (if c = d then [] # split_on d cs
      else (case split_on d cs of
              [] \<Rightarrow> [[c]]
            | w # ws \<Rightarrow> (c # w) # ws))"

text \<open>\<open>sep.join(xs)\<close>.\<close>

fun join :: "string \<Rightarrow> string list \<Rightarrow> string" where
  "join sep [] = []"
| "join sep [x] = x"
| "join sep (x # y # ys) = x @ sep @ join sep (y # ys)"

text \<open>\<open>'{}'.format(n)\<close> for a non-negative integer: its decimal digits.\<close>

definition digit_chr :: "nat \<Rightarrow> char" where
  "digit_chr d = ''0123456789'' ! d"

function show_nat :: "nat \<Rightarrow> string" where
  "show_nat n = (if n < 10 then [digit_chr n] else show_nat (n div 10) @ [digit_chr (n mod 10)])"
  by pat_completeness auto
termination
  by (relation "measure id") auto

declare show_nat.simps [simp del]

text \<open>\<open>'{}'.format(v)\<close> for a property value that is a string or \<open>None\<close>.\<close>

definition format_prop :: "string option \<Rightarrow> string" where
  "format_prop v = (case v of None \<Rightarrow> ''None'' | Some s \<Rightarrow> s)"

definition newline :: string where
  "newline = [CHR 0x0A]"


section \<open>Data model\<close>

text \<open>
  Modelled from the spec: the variable class (\<open>metavar.Var\<close>) is not part of
  ccpp_capgen.py. A variable carries the properties that the comparison reads through
  \<open>get_prop_value\<close>, its dimension list (\<open>get_dimensions\<close>) and the rendering of its
  parse context (\<open>context_string(var.context)\<close>). \<open>kind\<close> and \<open>intent\<close> may be \<open>None\<close>
  in Python, which \<open>var_comp\<close> allows for with its \<open>isinstance(_, str)\<close> tests.
\<close>

record var =
  local_name :: string
  standard_name :: string
  vtype :: string
  kind :: "string option"
  intent :: "string option"
  dimensions :: "string list"
  ctx :: string

definition get_prop_value :: "var \<Rightarrow> string \<Rightarrow> string option" where
  "get_prop_value v prop_name =
     (if prop_name = ''local_name'' then Some (local_name v)
      else if prop_name = ''standard_name'' then Some (standard_name v)
      else if prop_name = ''type'' then Some (vtype v)
      else if prop_name = ''kind'' then kind v
      else if prop_name = ''intent'' then intent v
      else None)"

text \<open>
  Modelled from the spec: the header class (\<open>metadata_table.MetadataTable\<close>) is not part
  of ccpp_capgen.py. Metadata headers and the headers built from the Fortran source are
  objects of the same class: a title, a header type (a string, compared as such), the
  ordered variables, the \<open>has_variables\<close> flag, the rendering of \<open>start_context()\<close> and
  the file name of the header's context (\<open>context.filename\<close>, possibly \<open>None\<close>).
\<close>

record header =
  title :: string
  header_type :: string
  variable_list :: "var list"
  has_variables :: bool
  start_context :: string
  context_filename :: "string option"

text \<open>
  The exceptions: the module itself raises \<open>CCPPError\<close> with a message; \<open>str.format\<close> can
  raise \<open>ValueError\<close>, \<open>IndexError\<close> and \<open>KeyError\<close>, whose messages are left out.
  \<open>UndeterminedError\<close> stands for an exception whose class and message the model does not
  determine (see \<open>match_headers\<close>).
\<close>

datatype error = CCPPError string | ValueError | IndexError | KeyError | UndeterminedError

text \<open>
  \<open>text.format(*args)\<close> for string arguments. The text is read from left to right, as
  Python does: \<open>{{\<close> and \<open>}}\<close> stand for one brace, a lone \<open>}\<close> or a \<open>{\<close> that is never
  closed is a \<open>ValueError\<close>, \<open>{}\<close> takes the next argument, \<open>{3}\<close> the argument of that
  index, and any other name is looked up among the keyword arguments, of which there are
  none. Automatic and explicit numbering cannot be mixed. The result is \<open>None\<close> where the
  model does not determine what Python does: a replacement field that holds one of
  \<open>{ . [ ! :\<close> (nested fields, attributes, indices, conversions and format
  specifications), or an index of more than nine digits.
\<close>

datatype numbering = ANS_INIT | ANS_AUTO nat | ANS_MANUAL

datatype format_state = Literal | After_open | In_field string | After_close

definition undetermined_chr :: "char \<Rightarrow> bool" where
  "undetermined_chr c = (c \<in> set ''{.[!:'')"

definition digit_value :: "char \<Rightarrow> nat" where
  "digit_value d = length (takeWhile (\<lambda>c. c \<noteq> d) ''0123456789'')"

definition digits_value :: "string \<Rightarrow> nat" where
  "digits_value ds = foldl (\<lambda>n d. 10 * n + digit_value d) 0 ds"

text \<open>
  The argument for a field with the name \<open>nm\<close>, and the numbering after it; \<open>None\<close> is as
  for \<open>py_format\<close>.
\<close>

definition field_value ::
  "numbering \<Rightarrow> string list \<Rightarrow> string \<Rightarrow> (error + (string \<times> numbering)) option" where
  "field_value an args nm =
     (if nm = [] then
        (case an of
           ANS_MANUAL \<Rightarrow> Some (Inl ValueError)
         | ANS_INIT \<Rightarrow> Some (if 0 < length args then Inr (args ! 0, ANS_AUTO 1) else Inl IndexError)
         | ANS_AUTO n \<Rightarrow>
             Some (if n < length args then Inr (args ! n, ANS_AUTO (Suc n)) else Inl IndexError))
      else if list_all (\<lambda>c. c \<in> set ''0123456789'') nm then
        (if 9 < length nm then None
         else (case an of
                 ANS_AUTO n \<Rightarrow> Some (Inl ValueError)
               | _ \<Rightarrow>
                   Some (if digits_value nm < length args
                         then Inr (args ! digits_value nm, ANS_MANUAL)
                         else Inl IndexError)))
      else Some (Inl KeyError))"

fun format_from ::
  "format_state \<Rightarrow> numbering \<Rightarrow> string list \<Rightarrow> string \<Rightarrow> string \<Rightarrow> (error + string) option" where
  "format_from Literal an args [] out = Some (Inr out)"
| "format_from Literal an args (c # cs) out =
     (if c = CHR ''{'' then format_from After_open an args cs out
      else if c = CHR ''}'' then format_from After_close an args cs out
      else format_from Literal an args cs (out @ [c]))"
| "format_from After_open an args [] out = Some (Inl ValueError)"
| "format_from After_open an args (c # cs) out =
     (if c = CHR ''{'' then format_from Literal an args cs (out @ [c])
      else if c = CHR ''}'' then
        (case field_value an args [] of
           None \<Rightarrow> None
         | Some (Inl e) \<Rightarrow> Some (Inl e)
         | Some (Inr (v, an')) \<Rightarrow> format_from Literal an' args cs (out @ v))
      else if undetermined_chr c then None
      else format_from (In_field [c]) an args cs out)"
| "format_from (In_field nm) an args [] out = Some (Inl ValueError)"
| "format_from (In_field nm) an args (c # cs) out =
     (if c = CHR ''}'' then
        (case field_value an args nm of
           None \<Rightarrow> None
         | Some (Inl e) \<Rightarrow> Some (Inl e)
         | Some (Inr (v, an')) \<Rightarrow> format_from Literal an' args cs (out @ v))
      else if undetermined_chr c then None
      else format_from (In_field (nm @ [c])) an args cs out)"
| "format_from After_close an args [] out = Some (Inl ValueError)"
| "format_from After_close an args (c # cs) out =
     (if c = CHR ''}'' then format_from Literal an args cs (out @ [c])
      else Some (Inl ValueError))"

definition py_format :: "string \<Rightarrow> string list \<Rightarrow> (error + string) option" where
  "py_format text args = format_from Literal ANS_INIT args text []"


text \<open>Metadata table types which can have extra variables in Fortran.\<close>

definition EXTRA_VARIABLE_TABLE_TYPES :: "string list" where
  "EXTRA_VARIABLE_TABLE_TYPES = [''module'', ''host'', ''ddt'']"

text \<open>Metadata table types where order is significant.\<close>

definition ORDERED_TABLE_TYPES :: "string list" where
  "ORDERED_TABLE_TYPES = [''scheme'']"


section \<open>The consistency validator\<close>

definition add_error :: "string \<Rightarrow> string \<Rightarrow> string" where
  "add_error error_string new_error =
     (if error_string \<noteq> [] then error_string @ newline else error_string) @ new_error"

definition is_arrayspec :: "string \<Rightarrow> bool" where
  "is_arrayspec lname = (CHR ''('' \<in> set lname)"

text \<open>
  \<open>find_var_in_list\<close> returns the first variable whose lower-cased local name is the
  lower-cased \<open>local_name\<close>, with its index; Python's \<open>(None, -1)\<close> is \<open>None\<close> here.
\<close>

fun find_var_from :: "string \<Rightarrow> nat \<Rightarrow> var list \<Rightarrow> (var \<times> nat) option" where
  "find_var_from lname lind [] = None"
| "find_var_from lname lind (lvar # rest) =
     (if lower (local_name lvar) = lname then Some (lvar, lind)
      else find_var_from lname (Suc lind) rest)"

definition find_var_in_list :: "string \<Rightarrow> var list \<Rightarrow> (var \<times> nat) option" where
  "find_var_in_list lname var_list = find_var_from (lower lname) 0 var_list"

text \<open>\<open>var_comp\<close> with its default \<open>case_sensitive=False\<close>, the only way it is called.\<close>

definition var_comp :: "string \<Rightarrow> var \<Rightarrow> var \<Rightarrow> string \<Rightarrow> string" where
  "var_comp prop_name mvar fvar ttl =
     (let mprop = map_option lower (get_prop_value mvar prop_name);
          fprop = map_option lower (get_prop_value fvar prop_name);
          comp = (mprop = fprop)
      in if comp then []
         else add_error []
                (prop_name @ '' mismatch ('' @ format_prop mprop @ '' != '' @ format_prop fprop
                   @ '') in '' @ ttl @ ctx mvar))"

text \<open>\<open>if ':' in d: d = ':'.join([x.strip() for x in d.split(':')])\<close>\<close>

definition strip_range :: "string \<Rightarrow> string" where
  "strip_range d =
     (if CHR '':'' \<in> set d then join '':'' (map strip (split_on (CHR '':'') d)) else d)"

text \<open>
  The loop of \<open>dims_comp\<close> over \<open>enumerate(mdims)\<close>. It runs only when both lists have the
  same length, so \<open>fdims[dim_ind]\<close> is in range. The comparison is the source's
  \<open>fdim in (':', fdim)\<close>.
\<close>

fun dims_loop :: "var \<Rightarrow> string \<Rightarrow> string list \<Rightarrow> nat \<Rightarrow> string list \<Rightarrow> string \<Rightarrow> string" where
  "dims_loop mvar ttl fdims dim_ind [] errors = errors"
| "dims_loop mvar ttl fdims dim_ind (mdim0 # rest) errors =
     (let mdim = lower (strip_range mdim0);
          fdim = lower (strip_range (strip (fdims ! dim_ind)));
          comp = (fdim = '':'' \<or> fdim = fdim)
      in dims_loop mvar ttl fdims (Suc dim_ind) rest
           (if comp then errors
            else add_error errors
                   (''Error: dim '' @ show_nat (dim_ind + 1) @ '' mismatch ('' @ mdim @ '' != ''
                      @ fdims ! dim_ind @ '') in '' @ ttl @ ''/'' @ standard_name mvar
                      @ ctx mvar)))"

text \<open>
  \<open>dims_comp\<close>. The conversion of the Fortran variable's dimensions to standard names
  (\<open>mheader.convert_dims_to_standard_names\<close>) belongs to the header class; it is the
  parameter \<open>conv\<close>.
\<close>

definition dims_comp ::
  "(header \<Rightarrow> var \<Rightarrow> string list) \<Rightarrow> header \<Rightarrow> var \<Rightarrow> var \<Rightarrow> string \<Rightarrow> string" where
  "dims_comp conv mheader mvar fvar ttl =
     (let mdims = dimensions mvar;
          fdims = conv mheader fvar;
          comp = (length mdims = length fdims)
      in if comp then dims_loop mvar ttl fdims 0 mdims []
         else add_error []
                (''Error: rank mismatch in '' @ ttl @ ''/'' @ standard_name mvar @ '' (''
                   @ show_nat (length mdims) @ '' != '' @ show_nat (length fdims) @ '')''
                   @ ctx mvar))"

text \<open>
  Lines 400 to 423 of \<open>compare_fheader_to_mheader\<close>: the field comparison of a metadata
  variable with the Fortran variable found for it.
\<close>

definition compare_fields ::
  "(header \<Rightarrow> var \<Rightarrow> string list) \<Rightarrow> header \<Rightarrow> var \<Rightarrow> var \<Rightarrow> string \<Rightarrow> string" where
  "compare_fields conv meta_header mvar fvar errors_found =
     (let ttl = title meta_header;
          errs = var_comp ''local_name'' mvar fvar ttl
      in if errs \<noteq> [] then add_error errors_found errs
         else
           (let errs_t = var_comp ''type'' mvar fvar ttl;
                e1 = (if errs_t \<noteq> [] then add_error errors_found errs_t else errors_found);
                errs_k = var_comp ''kind'' mvar fvar ttl;
                e2 = (if errs_k \<noteq> [] then add_error e1 errs_k else e1);
                e3 = (if header_type meta_header = ''scheme'' then
                        (let errs_i = var_comp ''intent'' mvar fvar ttl
                         in if errs_i \<noteq> [] then add_error e2 errs_i else e2)
                      else e2);
                errs_d = dims_comp conv meta_header mvar fvar ttl
            in if errs_d \<noteq> [] then add_error e3 errs_d else e3))"

text \<open>
  The body of the loop over \<open>enumerate(mlist)\<close> (lines 365 to 423) for the metadata
  variable \<open>mvar\<close> at position \<open>mind\<close>; it returns the new \<open>errors_found\<close>.
\<close>

definition check_var ::
  "(header \<Rightarrow> var \<Rightarrow> string list) \<Rightarrow> header \<Rightarrow> header \<Rightarrow> nat \<Rightarrow> var \<Rightarrow> string \<Rightarrow> string" where
  "check_var conv meta_header fort_header mind mvar errors_found =
     (let ttl = title meta_header;
          fht = header_type fort_header;
          flist = variable_list fort_header;
          flen = length flist;
          lname = local_name mvar;
          arrayref = is_arrayspec lname
      in if mind \<ge> flen then
           (if arrayref then errors_found
            else if find_var_in_list lname flist = None then
              add_error errors_found (''No Fortran variable for '' @ lname @ '' in '' @ ttl)
            else errors_found)
         else
           (case find_var_in_list lname flist of
              None \<Rightarrow>
                add_error errors_found
                  (''Variable mismatch in '' @ ttl @ '', no Fortran variable '' @ lname @ ''.'')
            | Some (fvar, fnd) \<Rightarrow>
                if fht \<in> set ORDERED_TABLE_TYPES \<and> fnd \<noteq> mind then
                  add_error errors_found (''Out of order argument, '' @ lname @ '' in '' @ ttl)
                else if arrayref then errors_found
                else compare_fields conv meta_header mvar fvar errors_found))"

fun vars_loop ::
  "(header \<Rightarrow> var \<Rightarrow> string list) \<Rightarrow> header \<Rightarrow> header \<Rightarrow> nat \<Rightarrow> var list \<Rightarrow> string \<Rightarrow> string" where
  "vars_loop conv meta_header fort_header mind [] errors_found = errors_found"
| "vars_loop conv meta_header fort_header mind (mvar # rest) errors_found =
     vars_loop conv meta_header fort_header (Suc mind) rest
       (check_var conv meta_header fort_header mind mvar errors_found)"

text \<open>Lines 337 to 345: \<open>mlen\<close> starts at \<open>len(mlist)\<close> and loses one per array reference.\<close>

definition count_mlen :: "var list \<Rightarrow> int" where
  "count_mlen mlist =
     fold (\<lambda>mvar mlen. if is_arrayspec (local_name mvar) then mlen - 1 else mlen)
       mlist (int (length mlist))"

text \<open>
  Lines 346 to 359: \<open>None\<close> when \<open>list_match\<close> ends true, otherwise the \<open>etype\<close> that the
  count diagnostic names.
\<close>

definition arity_etype :: "string \<Rightarrow> int \<Rightarrow> int \<Rightarrow> string option" where
  "arity_etype fht mlen flen =
     (if mlen = flen then None
      else if fht \<in> set EXTRA_VARIABLE_TABLE_TYPES then
        (if flen > mlen then None else Some (''Fortran '' @ fht))
      else if flen > mlen then Some ''metadata header''
      else Some (''Fortran '' @ fht))"

text \<open>Lines 360 to 363: \<open>errors_found\<close> after the count check.\<close>

definition arity_errors :: "header \<Rightarrow> header \<Rightarrow> string" where
  "arity_errors meta_header fort_header =
     (case arity_etype (header_type fort_header) (count_mlen (variable_list meta_header))
             (int (length (variable_list fort_header))) of
        None \<Rightarrow> []
      | Some etype \<Rightarrow>
          add_error []
            (''Variable mismatch in '' @ title meta_header @ '', variables missing from ''
               @ etype @ ''.''))"

text \<open>
  \<open>compare_fheader_to_mheader\<close>: \<open>Inl\<close> is the raised \<open>CCPPError\<close>, \<open>Inr\<close> the returned
  error string. The test \<open>(mht != 'host') or (fht not in ('module', 'scheme'))\<close> is
  evaluated left to right, as Python's \<open>or\<close> does.
\<close>

definition compare_fheader_to_mheader ::
  "(header \<Rightarrow> var \<Rightarrow> string list) \<Rightarrow> header \<Rightarrow> header \<Rightarrow> error + string" where
  "compare_fheader_to_mheader conv meta_header fort_header =
     (let ttl = title meta_header;
          mht = header_type meta_header;
          fht = header_type fort_header;
          mismatch = CCPPError (''Metadata table type mismatch for '' @ ttl @ '', '' @ mht
                                  @ '' != '' @ fht @ start_context meta_header)
      in if mht \<noteq> fht then
           (if mht \<noteq> ''host'' then Inl mismatch
            else if fht \<in> set [''module'', ''scheme''] then Inr []
            else Inl mismatch)
         else
           Inr (vars_loop conv meta_header fort_header 0 (variable_list meta_header)
                  (arity_errors meta_header fort_header)))"

text \<open>
  \<open>fort_headers.pop(findex)\<close> at the first index whose header has the title: the header
  and the list without it.
\<close>

fun pop_title :: "string \<Rightarrow> header list \<Rightarrow> (header \<times> header list) option" where
  "pop_title mtitle [] = None"
| "pop_title mtitle (f # fs) =
     (if title f = mtitle then Some (f, fs)
      else (case pop_title mtitle fs of
              None \<Rightarrow> None
            | Some (g, rest) \<Rightarrow> Some (g, f # rest)))"

text \<open>
  Lines 436 to 454 of \<open>check_fortran_against_metadata\<close>. \<open>header_dict\<close> is keyed by the
  metadata header objects themselves, so every header of the list is a key of its own;
  it is the list of pairs in insertion order, the order in which Python iterates over it.
  The result also holds what is left of \<open>fort_headers\<close>.
\<close>

fun pair_headers ::
  "header list \<Rightarrow> header list \<Rightarrow> string \<Rightarrow> (header \<times> header) list
     \<Rightarrow> error + ((header \<times> header) list \<times> header list)" where
  "pair_headers [] fort_headers ffilename header_dict = Inr (header_dict, fort_headers)"
| "pair_headers (mheader # rest) fort_headers ffilename header_dict =
     (case pop_title (title mheader) fort_headers of
        None \<Rightarrow>
          Inl (CCPPError (''No matching Fortran routine found for '' @ title mheader
                            @ '' in '' @ ffilename))
      | Some (fheader, fort_headers') \<Rightarrow>
          pair_headers rest fort_headers' ffilename (header_dict @ [(mheader, fheader)]))"

text \<open>
  Lines 456 to 464: the message about the Fortran headers left over. At every header
  with variables the source appends the line with its two \<open>{}\<close> and then formats the
  whole text accumulated so far, so that the titles and the file name put in at earlier
  steps are read as format text again. \<open>Inl\<close> is an exception of \<open>str.format\<close>, \<open>None\<close> as
  for \<open>py_format\<close>.
\<close>

fun unmatched_msg ::
  "header list \<Rightarrow> string \<Rightarrow> string \<Rightarrow> string \<Rightarrow> (error + string) option" where
  "unmatched_msg [] mfilename errmsg sep = Some (Inr errmsg)"
| "unmatched_msg (fheader # rest) mfilename errmsg sep =
     (if has_variables fheader then
        (case py_format (errmsg @ sep @ ''No matching metadata header found for {} in {}'')
                [title fheader, mfilename] of
           None \<Rightarrow> None
         | Some (Inl e) \<Rightarrow> Some (Inl e)
         | Some (Inr errmsg') \<Rightarrow> unmatched_msg rest mfilename errmsg' newline)
      else unmatched_msg rest mfilename errmsg sep)"

text \<open>
  Lines 436 to 468: the pairing of the headers of one file, or its error. Where the
  model does not determine the outcome of \<open>str.format\<close>, the source still ends in an
  exception: either \<open>str.format\<close> raises, or it returns a text that starts with
  \<open>No matching\<close> and is raised as a \<open>CCPPError\<close>; this is \<open>UndeterminedError\<close>.
\<close>

definition match_headers ::
  "header list \<Rightarrow> header list \<Rightarrow> string \<Rightarrow> string \<Rightarrow> error + (header \<times> header) list" where
  "match_headers meta_headers fort_headers mfilename ffilename =
     (case pair_headers meta_headers fort_headers ffilename [] of
        Inl e \<Rightarrow> Inl e
      | Inr (header_dict, fort_headers') \<Rightarrow>
          (case (if fort_headers' \<noteq> [] then unmatched_msg fort_headers' mfilename [] []
                 else Some (Inr [])) of
             None \<Rightarrow> Inl UndeterminedError
           | Some (Inl e) \<Rightarrow> Inl e
           | Some (Inr errmsg) \<Rightarrow>
               if errmsg \<noteq> [] then Inl (CCPPError errmsg) else Inr header_dict))"

text \<open>
  Lines 470 to 474: \<open>errors_found += compare_fheader_to_mheader(...)\<close> over the pairs; an
  exception of one comparison ends the loop.
\<close>

fun compare_all ::
  "(header \<Rightarrow> var \<Rightarrow> string list) \<Rightarrow> (header \<times> header) list \<Rightarrow> string \<Rightarrow> error + string" where
  "compare_all conv [] errors_found = Inr errors_found"
| "compare_all conv ((mheader, fheader) # rest) errors_found =
     (case compare_fheader_to_mheader conv mheader fheader of
        Inl e \<Rightarrow> Inl e
      | Inr errs \<Rightarrow> compare_all conv rest (errors_found @ errs))"

text \<open>Lines 475 to 480: the error raised for a non-empty \<open>errors_found\<close>.\<close>

definition consistency_error :: "string \<Rightarrow> string \<Rightarrow> string \<Rightarrow> error" where
  "consistency_error errors_found mfilename ffilename =
     (let num_errors = count_list errors_found (CHR 0x0A) + 1
      in CCPPError (errors_found @ newline @ show_nat num_errors @ '' error''
                      @ (if num_errors > 1 then ''s'' else []) @ '' found comparing ''
                      @ mfilename @ '' to '' @ ffilename))"

definition check_fortran_against_metadata ::
  "(header \<Rightarrow> var \<Rightarrow> string list) \<Rightarrow> header list \<Rightarrow> header list \<Rightarrow> string \<Rightarrow> string
     \<Rightarrow> error + unit" where
  "check_fortran_against_metadata conv meta_headers fort_headers mfilename ffilename =
     (case match_headers meta_headers fort_headers mfilename ffilename of
        Inl e \<Rightarrow> Inl e
      | Inr header_dict \<Rightarrow>
          (case compare_all conv header_dict [] of
             Inl e \<Rightarrow> Inl e
           | Inr errors_found \<Rightarrow>
               if errors_found \<noteq> [] then Inl (consistency_error errors_found mfilename ffilename)
               else Inr ()))"


section \<open>The host and scheme aggregation\<close>

text \<open>
  The collaborators that ccpp_capgen.py imports or reaches through the operating system
  are parameters of the model: the metadata parser, called with a file name and the
  known derived types; the test whether a path exists; the Fortran parser (with the
  preprocessor definitions of the run); and the dimension conversion of the header
  class. The parsers can raise.
\<close>

record env =
  parse_metadata_file :: "string \<Rightarrow> string list \<Rightarrow> error + header list"
  path_exists :: "string \<Rightarrow> bool"
  parse_fortran_file :: "string \<Rightarrow> error + header list"
  convert_dims_to_standard_names :: "header \<Rightarrow> var \<Rightarrow> string list"

text \<open>Recognized Fortran filename extensions.\<close>

definition FORTRAN_FILENAME_EXTENSIONS :: "string list" where
  "FORTRAN_FILENAME_EXTENSIONS = [''F90'', ''f90'', ''F'', ''f'']"

text \<open>\<open>filename[0:lastdot+1]\<close> for the last dot of the name, or the name and a dot.\<close>

definition fortran_base :: "string \<Rightarrow> string" where
  "fortran_base filename =
     (if CHR ''.'' \<in> set filename then rev (dropWhile (\<lambda>c. c \<noteq> CHR ''.'') (rev filename))
      else filename @ ''.'')"

definition find_associated_fortran_file :: "(string \<Rightarrow> bool) \<Rightarrow> string \<Rightarrow> error + string" where
  "find_associated_fortran_file exists_path filename =
     (case List.find exists_path
             (map (\<lambda>extension. fortran_base filename @ extension) FORTRAN_FILENAME_EXTENSIONS) of
        None \<Rightarrow> Inl (CCPPError (''Cannot find Fortran file associated with '' @ filename))
      | Some fort_filename \<Rightarrow> Inr fort_filename)"

text \<open>
  Lines 494 to 503 and 543 to 552, the same in both functions: parse the metadata file
  with the known derived types, find and parse the Fortran file, check one against the
  other. The result is the list of metadata headers.
\<close>

definition read_and_check :: "env \<Rightarrow> string \<Rightarrow> string list \<Rightarrow> error + header list" where
  "read_and_check e filename known_ddts =
     (case parse_metadata_file e filename known_ddts of
        Inl err \<Rightarrow> Inl err
      | Inr mheaders \<Rightarrow>
          (case find_associated_fortran_file (path_exists e) filename of
             Inl err \<Rightarrow> Inl err
           | Inr fort_file \<Rightarrow>
               (case parse_fortran_file e fort_file of
                  Inl err \<Rightarrow> Inl err
                | Inr fheaders \<Rightarrow>
                    (case check_fortran_against_metadata (convert_dims_to_standard_names e)
                            mheaders fheaders filename fort_file of
                       Inl err \<Rightarrow> Inl err
                     | Inr _ \<Rightarrow> Inr mheaders))))"

text \<open>The message of lines 511 to 521 and 556 to 566.\<close>

definition duplicate_error :: "header \<Rightarrow> string \<Rightarrow> header \<Rightarrow> error" where
  "duplicate_error hdr filename oheader =
     CCPPError (''Duplicate '' @ header_type hdr @ '', '' @ title hdr @ '', found in ''
                  @ filename
                  @ (case context_filename oheader of
                       None \<Rightarrow> []
                     | Some ofile \<Rightarrow> '', original found in '' @ ofile))"

text \<open>
  Lines 505 to 524 of \<open>parse_host_model_files\<close>: the loop over the headers of one file.
  The dictionary \<open>meta_headers\<close> is the list of its items in insertion order, which is
  also the order of \<open>meta_headers.values()\<close>.
\<close>

fun register_host_headers ::
  "string \<Rightarrow> header list \<Rightarrow> (string \<times> header) list \<Rightarrow> string list
     \<Rightarrow> error + ((string \<times> header) list \<times> string list)" where
  "register_host_headers filename [] meta_headers known_ddts = Inr (meta_headers, known_ddts)"
| "register_host_headers filename (hdr # rest) meta_headers known_ddts =
     (case map_of meta_headers (title hdr) of
        None \<Rightarrow>
          register_host_headers filename rest (meta_headers @ [(title hdr, hdr)])
            (if header_type hdr = ''ddt'' then known_ddts @ [title hdr] else known_ddts)
      | Some oheader \<Rightarrow> Inl (duplicate_error hdr filename oheader))"

text \<open>
  The loop over \<open>host_filenames\<close>. Besides the result it returns the calls made to the
  metadata parser, in order: the file name and the known derived types passed with it.
\<close>

fun host_files_loop ::
  "env \<Rightarrow> string list \<Rightarrow> (string \<times> header) list \<Rightarrow> string list
     \<Rightarrow> (string \<times> string list) list \<times> (error + ((string \<times> header) list \<times> string list))" where
  "host_files_loop e [] meta_headers known_ddts = ([], Inr (meta_headers, known_ddts))"
| "host_files_loop e (filename # rest) meta_headers known_ddts =
     (case read_and_check e filename known_ddts of
        Inl err \<Rightarrow> ([(filename, known_ddts)], Inl err)
      | Inr mheaders \<Rightarrow>
          (case register_host_headers filename mheaders meta_headers known_ddts of
             Inl err \<Rightarrow> ([(filename, known_ddts)], Inl err)
           | Inr (meta_headers', known_ddts') \<Rightarrow>
               (case host_files_loop e rest meta_headers' known_ddts' of
                  (calls, res) \<Rightarrow> ((filename, known_ddts) # calls, res))))"

text \<open>
  \<open>parse_host_model_files\<close>: both dictionaries start empty. The host model is built by
  \<open>HostModel\<close> from \<open>meta_headers.values()\<close>; the model returns these values.
\<close>

definition parse_host_model_files ::
  "env \<Rightarrow> string list \<Rightarrow> (string \<times> string list) list \<times> (error + header list)" where
  "parse_host_model_files e host_filenames =
     (case host_files_loop e host_filenames [] [] of
        (calls, Inl err) \<Rightarrow> (calls, Inl err)
      | (calls, Inr (meta_headers, known_ddts)) \<Rightarrow> (calls, Inr (map snd meta_headers)))"

text \<open>Lines 554 to 573 of \<open>parse_scheme_files\<close>: the loop over the headers of one file.\<close>

fun register_scheme_headers ::
  "string \<Rightarrow> header list \<Rightarrow> header list \<Rightarrow> (string \<rightharpoonup> header) \<Rightarrow> string list
     \<Rightarrow> error + (header list \<times> (string \<rightharpoonup> header) \<times> string list)" where
  "register_scheme_headers filename [] meta_headers header_dict known_ddts =
     Inr (meta_headers, header_dict, known_ddts)"
| "register_scheme_headers filename (hdr # rest) meta_headers header_dict known_ddts =
     (case header_dict (title hdr) of
        Some oheader \<Rightarrow> Inl (duplicate_error hdr filename oheader)
      | None \<Rightarrow>
          register_scheme_headers filename rest (meta_headers @ [hdr])
            (header_dict(title hdr \<mapsto> hdr))
            (if header_type hdr = ''ddt'' then known_ddts @ [title hdr] else known_ddts))"

fun scheme_files_loop ::
  "env \<Rightarrow> string list \<Rightarrow> header list \<Rightarrow> (string \<rightharpoonup> header) \<Rightarrow> string list
     \<Rightarrow> (string \<times> string list) list
         \<times> (error + (header list \<times> (string \<rightharpoonup> header) \<times> string list))" where
  "scheme_files_loop e [] meta_headers header_dict known_ddts =
     ([], Inr (meta_headers, header_dict, known_ddts))"
| "scheme_files_loop e (filename # rest) meta_headers header_dict known_ddts =
     (case read_and_check e filename known_ddts of
        Inl err \<Rightarrow> ([(filename, known_ddts)], Inl err)
      | Inr mheaders \<Rightarrow>
          (case register_scheme_headers filename mheaders meta_headers header_dict known_ddts of
             Inl err \<Rightarrow> ([(filename, known_ddts)], Inl err)
           | Inr (meta_headers', header_dict', known_ddts') \<Rightarrow>
               (case scheme_files_loop e rest meta_headers' header_dict' known_ddts' of
                  (calls, res) \<Rightarrow> ((filename, known_ddts) # calls, res))))"

text \<open>\<open>parse_scheme_files\<close>: the list, the dictionary and the known types start empty.\<close>

definition parse_scheme_files ::
  "env \<Rightarrow> string list \<Rightarrow> (string \<times> string list) list \<times> (error + header list)" where
  "parse_scheme_files e scheme_filenames =
     (case scheme_files_loop e scheme_filenames [] Map.empty [] of
        (calls, Inl err) \<Rightarrow> (calls, Inl err)
      | (calls, Inr (meta_headers, header_dict, known_ddts)) \<Rightarrow> (calls, Inr meta_headers))"

text \<open>
  Lines 607 to 611 of \<open>capgen\<close>: the host files, then the scheme files. The result is the
  host headers and the scheme headers, with the parser calls of the whole run.
\<close>

definition capgen_parse ::
  "env \<Rightarrow> string list \<Rightarrow> string list
     \<Rightarrow> (string \<times> string list) list \<times> (error + (header list \<times> header list))" where
  "capgen_parse e host_files scheme_files =
     (case parse_host_model_files e host_files of
        (calls, Inl err) \<Rightarrow> (calls, Inl err)
      | (calls, Inr host_model) \<Rightarrow>
          (case parse_scheme_files e scheme_files of
             (calls', Inl err) \<Rightarrow> (calls @ calls', Inl err)
           | (calls', Inr scheme_headers) \<Rightarrow>
               (calls @ calls', Inr (host_model, scheme_headers))))"


section \<open>Notions used in the statements\<close>

text \<open>
  A metadata variable and a Fortran variable are identical for the comparison when they
  agree on name, type, kind and intent and the metadata dimensions are the converted
  dimensions of the Fortran variable.
\<close>

definition same_var :: "(header \<Rightarrow> var \<Rightarrow> string list) \<Rightarrow> header \<Rightarrow> var \<Rightarrow> var \<Rightarrow> bool" where
  "same_var conv mheader mvar fvar =
     (local_name mvar = local_name fvar \<and> vtype mvar = vtype fvar \<and> kind mvar = kind fvar
      \<and> intent mvar = intent fvar \<and> dimensions mvar = conv mheader fvar)"

text \<open>The local names as \<open>find_var_in_list\<close> compares them.\<close>

definition lower_names :: "var list \<Rightarrow> string list" where
  "lower_names vars = map (\<lambda>v. lower (local_name v)) vars"

text \<open>The number of metadata variables that are not array references.\<close>

definition plain_count :: "var list \<Rightarrow> nat" where
  "plain_count mlist = length (filter (\<lambda>v. \<not> is_arrayspec (local_name v)) mlist)"

text \<open>
  A header as the Fortran parser produces it: Fortran names ignore case, so the declared
  names differ when case is ignored, and a declaration never has the form of an array
  reference (lines 370 and 397: array references are not in the Fortran table).
\<close>

definition wellformed_source :: "header \<Rightarrow> bool" where
  "wellformed_source fh =
     (distinct (lower_names (variable_list fh))
      \<and> list_all (\<lambda>v. \<not> is_arrayspec (local_name v)) (variable_list fh))"

text \<open>A text without braces: \<open>str.format\<close> leaves it as it is.\<close>

definition brace_free :: "string \<Rightarrow> bool" where
  "brace_free s = (CHR ''{'' \<notin> set s \<and> CHR ''}'' \<notin> set s)"

text \<open>The lines of an error string.\<close>

definition error_lines :: "string \<Rightarrow> string list" where
  "error_lines s = split_on (CHR 0x0A) s"


text \<open>
  The Fortran headers that no metadata header has taken: for each metadata header in
  turn, the first header of its title leaves the list.
\<close>

fun remove_title :: "string \<Rightarrow> header list \<Rightarrow> header list" where
  "remove_title t [] = []"
| "remove_title t (f # fs) = (if title f = t then fs else f # remove_title t fs)"

definition unpaired :: "header list \<Rightarrow> header list \<Rightarrow> header list" where
  "unpaired mhs fhs = foldl (\<lambda>fs m. remove_title (title m) fs) fhs mhs"


text \<open>The registered host headers are keyed by their titles, each title once.\<close>

definition host_keys_ok :: "(string \<times> header) list \<Rightarrow> bool" where
  "host_keys_ok mh = (distinct (map fst mh) \<and> list_all (\<lambda>(t, h). t = title h) mh)"

text \<open>The registered scheme headers have distinct titles, which are the keys of the dictionary.\<close>

definition scheme_keys_ok :: "header list \<Rightarrow> (string \<rightharpoonup> header) \<Rightarrow> bool" where
  "scheme_keys_ok ml dict = (distinct (map title ml) \<and> dom dict = set (map title ml))"


section \<open>Example inputs\<close>

text \<open>A real variable \<open>name\<close> with the given dimensions, and a header made of such variables.\<close>

definition ex_var :: "string \<Rightarrow> string list \<Rightarrow> var" where
  "ex_var name dims =
     \<lparr>local_name = name, standard_name = ''std_'' @ name, vtype = ''real'',
      kind = Some ''kind_phys'', intent = Some ''in'', dimensions = dims, ctx = '', at line 3''\<rparr>"

definition ex_header :: "string \<Rightarrow> string \<Rightarrow> var list \<Rightarrow> header" where
  "ex_header ttl htype vars =
     \<lparr>title = ttl, header_type = htype, variable_list = vars, has_variables = (vars \<noteq> []),
      start_context = '', at line 1'', context_filename = None\<rparr>"

text \<open>A scalar variable \<open>name\<close> of the derived type \<open>tname\<close>.\<close>

definition ex_ddt_var :: "string \<Rightarrow> string \<Rightarrow> var" where
  "ex_ddt_var name tname = (ex_var name [])\<lparr>vtype := tname, kind := None\<rparr>"

text \<open>The dimensions of a Fortran variable taken as they are.\<close>

definition ex_conv :: "header \<Rightarrow> var \<Rightarrow> string list" where
  "ex_conv h v = dimensions v"


text \<open>
  A run with two files: \<open>h.meta\<close> with \<open>h.F90\<close> holds \<open>host_header\<close>, \<open>s.meta\<close> with
  \<open>s.F90\<close> holds \<open>scheme_header\<close>; the metadata and the Fortran source agree.
\<close>

definition ex_env :: "header \<Rightarrow> header \<Rightarrow> env" where
  "ex_env host_header scheme_header =
     \<lparr>parse_metadata_file =
        (\<lambda>filename known_ddts.
           if filename = ''h.meta'' then Inr [host_header]
           else if filename = ''s.meta'' then Inr [scheme_header]
           else Inl (CCPPError ''cannot read'')),
      path_exists = (\<lambda>p. p = ''h.F90'' \<or> p = ''s.F90''),
      parse_fortran_file =
        (\<lambda>fort_file.
           if fort_file = ''h.F90'' then Inr [host_header]
           else if fort_file = ''s.F90'' then Inr [scheme_header]
           else Inl (CCPPError ''cannot read'')),
      convert_dims_to_standard_names = ex_conv\<rparr>"


section \<open>Facts about the error string\<close>

lemma add_error_Nil: "add_error [] e = e"
  by (simp add: add_error_def)


section \<open>The dimension comparison\<close>

lemma dims_loop_keeps: "dims_loop mvar ttl fdims dim_ind mdims errors = errors"
  by (induction mdims arbitrary: dim_ind errors) (simp_all add: Let_def)

lemma dims_comp_same_rank:
  "length (dimensions mvar) = length (conv mheader fvar) \<Longrightarrow> dims_comp conv mheader mvar fvar ttl = []"
  by (simp add: dims_comp_def dims_loop_keeps)

text \<open>
  C1. The claim asks for a dimension-mismatch diagnostic when the source dimension \<open>km\<close>
  meets the metadata dimension \<open>km2\<close>. The test of \<open>dims_comp\<close> is
  \<open>fdim in (':', fdim)\<close>, which compares the source dimension with itself, so the code
  returns the empty string for this pair.
\<close>

theorem dims_comp_km_km2_passes:
  "dims_comp ex_conv (ex_header ''T'' ''scheme'' [ex_var ''x'' [''km2'']])
     (ex_var ''x'' [''km2'']) (ex_var ''x'' [''km'']) ''T'' = []"
  by (simp add: dims_comp_def ex_conv_def ex_var_def)


section \<open>The header comparison\<close>

text \<open>
  C10. When the metadata header is of type \<open>host\<close> and the Fortran header of type
  \<open>module\<close> or \<open>scheme\<close>, \<open>compare_fheader_to_mheader\<close> returns the empty string whatever
  the variables of the two headers are: it reaches neither the count check nor the loop
  over the variables.
\<close>

theorem compare_host_in_module_or_scheme:
  assumes "header_type meta_header = ''host''"
    and "header_type fort_header = ''module'' \<or> header_type fort_header = ''scheme''"
  shows "compare_fheader_to_mheader conv meta_header fort_header = Inr []"
  using assms by (auto simp add: compare_fheader_to_mheader_def Let_def)

theorem compare_host_in_module_or_scheme_witness:
  "header_type (ex_header ''T'' ''host'' [ex_var ''a'' [''im''], ex_var ''b'' []]) = ''host''
   \<and> (header_type (ex_header ''T'' ''module'' [ex_var ''c'' [''km'', ''jm'']]) = ''module''
        \<or> header_type (ex_header ''T'' ''module'' [ex_var ''c'' [''km'', ''jm'']]) = ''scheme'')
   \<and> compare_fheader_to_mheader ex_conv
        (ex_header ''T'' ''host'' [ex_var ''a'' [''im''], ex_var ''b'' []])
        (ex_header ''T'' ''module'' [ex_var ''c'' [''km'', ''jm'']]) = Inr []"
  using compare_host_in_module_or_scheme
    [of "ex_header ''T'' ''host'' [ex_var ''a'' [''im''], ex_var ''b'' []]"
        "ex_header ''T'' ''module'' [ex_var ''c'' [''km'', ''jm'']]" ex_conv]
  by (simp add: ex_header_def)

subsection \<open>Looking a variable up, and variables that agree\<close>

lemma find_var_from_nth:
  "distinct (lower_names flist) \<Longrightarrow> k < length flist \<Longrightarrow>
   find_var_from (lower (local_name (flist ! k))) i flist = Some (flist ! k, i + k)"
proof (induction flist arbitrary: i k)
  case Nil
  then show ?case by simp
next
  case (Cons f fs)
  show ?case
  proof (cases k)
    case 0
    then show ?thesis by simp
  next
    case (Suc k')
    with Cons.prems have k': "k' < length fs" and d: "distinct (lower_names fs)"
      and nin: "lower (local_name f) \<notin> set (lower_names fs)"
      by (simp_all add: lower_names_def)
    from k' have "lower (local_name (fs ! k')) \<in> set (lower_names fs)"
      by (simp add: lower_names_def)
    with nin have "lower (local_name f) \<noteq> lower (local_name (fs ! k'))" by metis
    with Cons.IH [OF d k', of "Suc i"] Suc show ?thesis by simp
  qed
qed

lemma var_comp_same:
  "get_prop_value mvar p = get_prop_value fvar p \<Longrightarrow> var_comp p mvar fvar ttl = []"
  by (simp add: var_comp_def)

lemma compare_fields_same:
  assumes "same_var conv mh mvar fvar"
  shows "compare_fields conv mh mvar fvar e = e"
proof -
  from assms have "var_comp ''local_name'' mvar fvar (title mh) = []"
    "var_comp ''type'' mvar fvar (title mh) = []"
    "var_comp ''kind'' mvar fvar (title mh) = []"
    "var_comp ''intent'' mvar fvar (title mh) = []"
    by (simp_all add: same_var_def var_comp_same get_prop_value_def)
  moreover from assms have "dims_comp conv mh mvar fvar (title mh) = []"
    by (simp add: same_var_def dims_comp_same_rank)
  ultimately show ?thesis by (simp add: compare_fields_def)
qed

lemma check_var_in_place:
  assumes "distinct (lower_names (variable_list fh))" and "k < length (variable_list fh)"
    and "same_var conv mh mvar (variable_list fh ! k)"
  shows "check_var conv mh fh k mvar e = e"
proof -
  from assms(3) have "local_name mvar = local_name (variable_list fh ! k)"
    by (simp add: same_var_def)
  with find_var_from_nth [OF assms(1,2), of 0]
  have "find_var_in_list (local_name mvar) (variable_list fh) = Some (variable_list fh ! k, k)"
    by (simp add: find_var_in_list_def)
  with assms(2) compare_fields_same [OF assms(3)] show ?thesis
    by (simp add: check_var_def Let_def)
qed

lemma vars_loop_in_place:
  assumes "distinct (lower_names (variable_list fh))"
  shows "i + length ms \<le> length (variable_list fh) \<Longrightarrow>
         list_all2 (same_var conv mh) ms (take (length ms) (drop i (variable_list fh))) \<Longrightarrow>
         vars_loop conv mh fh i ms e = e"
proof (induction ms arbitrary: i e)
  case Nil
  then show ?case by simp
next
  case (Cons m ms)
  from Cons.prems(1) have i: "i < length (variable_list fh)" by simp
  then have d: "drop i (variable_list fh) = variable_list fh ! i # drop (Suc i) (variable_list fh)"
    by (simp add: Cons_nth_drop_Suc)
  with Cons.prems(2) have h: "same_var conv mh m (variable_list fh ! i)"
    and t: "list_all2 (same_var conv mh) ms (take (length ms) (drop (Suc i) (variable_list fh)))"
    by simp_all
  from Cons.prems(1) have "Suc i + length ms \<le> length (variable_list fh)" by simp
  from Cons.IH [OF this t] check_var_in_place [OF assms i h] show ?case by simp
qed

lemma vars_loop_append:
  "vars_loop conv mh fh i (xs @ ys) e =
   vars_loop conv mh fh (i + length xs) ys (vars_loop conv mh fh i xs e)"
  by (induction xs arbitrary: i e) simp_all

lemma count_mlen_fold:
  "fold (\<lambda>mvar mlen. if is_arrayspec (local_name mvar) then mlen - 1 else mlen) mlist n =
   n - int (length (filter (\<lambda>v. is_arrayspec (local_name v)) mlist))"
  by (induction mlist arbitrary: n) simp_all

lemma count_mlen_plain: "count_mlen mlist = int (plain_count mlist)"
proof -
  have "length mlist = length (filter (\<lambda>v. is_arrayspec (local_name v)) mlist) + plain_count mlist"
    unfolding plain_count_def by (rule sum_length_filter_compl [symmetric])
  then show ?thesis by (simp add: count_mlen_def count_mlen_fold)
qed

lemma vars_loop_segment:
  assumes "distinct (lower_names (variable_list fh))"
    and "variable_list fh = pre @ mid @ post"
    and "list_all2 (same_var conv mh) ms mid"
  shows "vars_loop conv mh fh (length pre) ms e = e"
proof -
  from assms(3) have len: "length ms = length mid" by (rule list_all2_lengthD)
  with assms(2) have "take (length ms) (drop (length pre) (variable_list fh)) = mid" by simp
  with assms(3) have "list_all2 (same_var conv mh) ms
      (take (length ms) (drop (length pre) (variable_list fh)))" by simp
  moreover from len assms(2) have "length pre + length ms \<le> length (variable_list fh)" by simp
  ultimately show ?thesis using vars_loop_in_place [OF assms(1)] by blast
qed

lemma check_var_out_of_order:
  assumes "distinct (lower_names (variable_list fh))"
    and "header_type fh = ''scheme''"
    and "k < length (variable_list fh)" and "i < length (variable_list fh)" and "k \<noteq> i"
    and "local_name mvar = local_name (variable_list fh ! k)"
  shows "check_var conv mh fh i mvar e =
         add_error e (''Out of order argument, '' @ local_name mvar @ '' in '' @ title mh)"
proof -
  from find_var_from_nth [OF assms(1,3), of 0] assms(6)
  have "find_var_in_list (local_name mvar) (variable_list fh) = Some (variable_list fh ! k, k)"
    by (simp add: find_var_in_list_def)
  with assms(2,4,5) show ?thesis
    by (simp add: check_var_def Let_def ORDERED_TABLE_TYPES_def)
qed

lemma arity_errors_equal_counts:
  "plain_count (variable_list mh) = length (variable_list fh) \<Longrightarrow> arity_errors mh fh = []"
  by (simp add: arity_errors_def arity_etype_def count_mlen_plain)

lemma plain_count_all:
  "list_all (\<lambda>v. \<not> is_arrayspec (local_name v)) mlist \<Longrightarrow> plain_count mlist = length mlist"
  by (simp add: plain_count_def list_all_iff)

lemma plain_count_le: "plain_count mlist \<le> length mlist"
  by (simp add: plain_count_def)

lemma add_error_prefix: "prefix e (add_error e x)"
  by (simp add: add_error_def)

lemma add_error_if_prefix: "prefix e (if c then add_error e x else e)"
  by (simp add: add_error_prefix)

lemma compare_fields_prefix: "prefix e (compare_fields conv mh mvar fvar e)"
proof -
  define t where "t = title mh"
  define e1 where "e1 = (if var_comp ''type'' mvar fvar t \<noteq> []
                          then add_error e (var_comp ''type'' mvar fvar t) else e)"
  define e2 where "e2 = (if var_comp ''kind'' mvar fvar t \<noteq> []
                          then add_error e1 (var_comp ''kind'' mvar fvar t) else e1)"
  define e3 where "e3 = (if header_type mh = ''scheme'' then
                           (if var_comp ''intent'' mvar fvar t \<noteq> []
                            then add_error e2 (var_comp ''intent'' mvar fvar t) else e2)
                         else e2)"
  define e4 where "e4 = (if dims_comp conv mh mvar fvar t \<noteq> []
                          then add_error e3 (dims_comp conv mh mvar fvar t) else e3)"
  have "prefix e e1" unfolding e1_def by (rule add_error_if_prefix)
  also have "prefix e1 e2" unfolding e2_def by (rule add_error_if_prefix)
  also have "prefix e2 e3" unfolding e3_def by (simp add: add_error_prefix)
  also have "prefix e3 e4" unfolding e4_def by (rule add_error_if_prefix)
  finally have "prefix e e4" .
  moreover have "compare_fields conv mh mvar fvar e =
      (if var_comp ''local_name'' mvar fvar t \<noteq> []
       then add_error e (var_comp ''local_name'' mvar fvar t) else e4)"
    unfolding e4_def e3_def e2_def e1_def t_def by (simp add: compare_fields_def Let_def)
  ultimately show ?thesis by (simp add: add_error_prefix)
qed

lemma check_var_prefix: "prefix e (check_var conv mh fh i mvar e)"
  by (simp add: check_var_def Let_def add_error_prefix compare_fields_prefix
      split: option.split prod.split)

lemma vars_loop_prefix: "prefix e (vars_loop conv mh fh i ms e)"
proof (induction ms arbitrary: i e)
  case Nil
  show ?case by simp
next
  case (Cons m ms)
  have "prefix e (check_var conv mh fh i m e)" by (rule check_var_prefix)
  also have "prefix \<dots> (vars_loop conv mh fh (Suc i) ms (check_var conv mh fh i m e))"
    by (rule Cons.IH)
  finally show ?case by simp
qed

subsection \<open>Evaluating the comparison on examples\<close>

lemmas ex_defs = ex_header_def ex_var_def ex_ddt_var_def ex_conv_def
lemmas compare_defs = compare_fheader_to_mheader_def arity_errors_def arity_etype_def count_mlen_def
  vars_loop.simps check_var_def find_var_in_list_def is_arrayspec_def compare_fields_def var_comp_def
  get_prop_value_def dims_comp_def add_error_def format_prop_def newline_def
  EXTRA_VARIABLE_TABLE_TYPES_def ORDERED_TABLE_TYPES_def lower_def lower_chr_def Let_def

lemmas lower_name_defs = lower_names_def lower_def lower_chr_def

subsection \<open>Identical headers\<close>

text \<open>
  Variables that agree with the Fortran variables of their positions leave no
  diagnostic, as long as the Fortran names are distinct when case is ignored and the
  counts agree: no metadata name is an array reference, or the table type allows more
  Fortran variables.
\<close>

lemma compare_same_variables:
  assumes "header_type mh = header_type fh"
    and "list_all2 (same_var conv mh) (variable_list mh) (variable_list fh)"
    and "distinct (lower_names (variable_list fh))"
    and "header_type fh \<in> set EXTRA_VARIABLE_TABLE_TYPES
         \<or> list_all (\<lambda>v. \<not> is_arrayspec (local_name v)) (variable_list mh)"
  shows "compare_fheader_to_mheader conv mh fh = Inr []"
proof -
  have len: "length (variable_list mh) = length (variable_list fh)"
    using assms(2) by (rule list_all2_lengthD)
  have "arity_errors mh fh = []"
  proof (cases "plain_count (variable_list mh) = length (variable_list fh)")
    case True
    then show ?thesis by (rule arity_errors_equal_counts)
  next
    case False
    with plain_count_all len assms(4) have ex: "header_type fh \<in> set EXTRA_VARIABLE_TABLE_TYPES"
      by auto
    from False plain_count_le [of "variable_list mh"] len
    have "plain_count (variable_list mh) < length (variable_list fh)" by simp
    with ex show ?thesis
      by (simp add: arity_errors_def arity_etype_def count_mlen_plain)
  qed
  moreover have "vars_loop conv mh fh 0 (variable_list mh) [] = []"
    using vars_loop_segment [OF assms(3) _ assms(2), of "[]" "[]" "[]"] by simp
  ultimately show ?thesis using assms(1)
    by (simp add: compare_fheader_to_mheader_def Let_def)
qed


lemma same_var_plain_names:
  "list_all2 (same_var conv mh) ms fs \<Longrightarrow>
   list_all (\<lambda>v. \<not> is_arrayspec (local_name v)) fs \<Longrightarrow>
   list_all (\<lambda>v. \<not> is_arrayspec (local_name v)) ms"
  by (induction rule: list_all2_induct) (simp_all add: same_var_def)

text \<open>
  C7. For a metadata header and a Fortran header of the same type whose variable lists
  are identical in name, type, kind, intent and dimensions, in the same order,
  \<open>compare_fheader_to_mheader\<close> returns the empty string. The Fortran header is one that
  the Fortran parser can produce (\<open>wellformed_source\<close>).
\<close>

theorem compare_identical_headers:
  assumes "header_type mh = header_type fh"
    and "list_all2 (same_var conv mh) (variable_list mh) (variable_list fh)"
    and "wellformed_source fh"
  shows "compare_fheader_to_mheader conv mh fh = Inr []"
proof -
  from assms(3) have d: "distinct (lower_names (variable_list fh))"
    and p: "list_all (\<lambda>v. \<not> is_arrayspec (local_name v)) (variable_list fh)"
    by (simp_all add: wellformed_source_def)
  from same_var_plain_names [OF assms(2) p]
  have "list_all (\<lambda>v. \<not> is_arrayspec (local_name v)) (variable_list mh)" .
  with compare_same_variables [OF assms(1,2) d] show ?thesis by simp
qed

theorem compare_identical_headers_witness:
  "list_all2 (same_var ex_conv
       (ex_header ''T'' ''scheme'' [ex_var ''a'' [''im'', ''km''], ex_var ''B'' []]))
     (variable_list (ex_header ''T'' ''scheme'' [ex_var ''a'' [''im'', ''km''], ex_var ''B'' []]))
     (variable_list (ex_header ''T'' ''scheme'' [ex_var ''a'' [''im'', ''km''], ex_var ''B'' []]))
   \<and> wellformed_source (ex_header ''T'' ''scheme'' [ex_var ''a'' [''im'', ''km''], ex_var ''B'' []])
   \<and> compare_fheader_to_mheader ex_conv
        (ex_header ''T'' ''scheme'' [ex_var ''a'' [''im'', ''km''], ex_var ''B'' []])
        (ex_header ''T'' ''scheme'' [ex_var ''a'' [''im'', ''km''], ex_var ''B'' []]) = Inr []"
  using compare_identical_headers
    [of "ex_header ''T'' ''scheme'' [ex_var ''a'' [''im'', ''km''], ex_var ''B'' []]"
        "ex_header ''T'' ''scheme'' [ex_var ''a'' [''im'', ''km''], ex_var ''B'' []]" ex_conv]
  by (simp add: ex_defs same_var_def wellformed_source_def lower_name_defs is_arrayspec_def)

subsection \<open>Two metadata variables in swapped order\<close>

text \<open>
  C4, as the code has it. The Fortran scheme declares \<open>as, x, bs, y, cs\<close> and the
  metadata lists the same variables with \<open>x\<close> and \<open>y\<close> swapped. Both are out of place, so
  \<open>compare_fheader_to_mheader\<close> returns two lines, one for \<open>y\<close> and one for \<open>x\<close> in the
  order of the metadata, and nothing else: the scan goes on after each of them and the
  order is not corrected.
\<close>

theorem compare_swapped_scheme_variables:
  assumes "header_type mh = ''scheme''" and "header_type fh = ''scheme''"
    and "variable_list mh = as @ [y] @ bs @ [x] @ cs"
    and "list_all2 (same_var conv mh) (as @ [x] @ bs @ [y] @ cs) (variable_list fh)"
    and "distinct (lower_names (variable_list fh))"
    and "list_all (\<lambda>v. \<not> is_arrayspec (local_name v)) (variable_list mh)"
  shows "compare_fheader_to_mheader conv mh fh =
         Inr (''Out of order argument, '' @ local_name y @ '' in '' @ title mh @ newline
              @ ''Out of order argument, '' @ local_name x @ '' in '' @ title mh)"
proof -
  let ?P = "same_var conv mh"
  let ?fl = "variable_list fh"
  from assms(4) obtain fas r1 where f1: "?fl = fas @ r1"
    and a: "list_all2 ?P as fas" and r1: "list_all2 ?P ([x] @ bs @ [y] @ cs) r1"
    by (auto simp add: list_all2_append1)
  from r1 obtain fx r2 where f2: "r1 = fx # r2" and x: "?P x fx"
    and r2: "list_all2 ?P (bs @ [y] @ cs) r2"
    by (auto simp add: list_all2_Cons1)
  from r2 obtain fbs r3 where f3: "r2 = fbs @ r3"
    and b: "list_all2 ?P bs fbs" and r3: "list_all2 ?P ([y] @ cs) r3"
    by (auto simp add: list_all2_append1)
  from r3 obtain fy fcs where f4: "r3 = fy # fcs" and y: "?P y fy"
    and c: "list_all2 ?P cs fcs"
    by (auto simp add: list_all2_Cons1)
  have fl: "?fl = fas @ [fx] @ fbs @ [fy] @ fcs" using f1 f2 f3 f4 by simp
  have la: "length as = length fas" and lb: "length bs = length fbs" and lc: "length cs = length fcs"
    using a b c by (simp_all add: list_all2_lengthD)
  let ?i = "length as" and ?j = "Suc (length as + length bs)"
  have len: "length ?fl = length (variable_list mh)"
    using fl assms(3) la lb lc by simp
  have ar: "arity_errors mh fh = []"
    using arity_errors_equal_counts [of mh fh] plain_count_all [OF assms(6)] len by simp
  have s1: "vars_loop conv mh fh 0 as e = e" for e
    using vars_loop_segment [OF assms(5) _ a, of "[]" "[fx] @ fbs @ [fy] @ fcs" e] fl by simp
  have fj: "?fl ! ?j = fy" using fl la lb by (simp add: nth_append)
  have fi: "?fl ! ?i = fx" using fl la by (simp add: nth_append)
  have s2: "check_var conv mh fh ?i y e =
            add_error e (''Out of order argument, '' @ local_name y @ '' in '' @ title mh)" for e
    using check_var_out_of_order [OF assms(5) assms(2), of ?j ?i y conv mh e] fj y fl la lb
    by (simp add: same_var_def)
  have s3: "vars_loop conv mh fh (Suc ?i) bs e = e" for e
    using vars_loop_segment [OF assms(5) _ b, of "fas @ [fx]" "[fy] @ fcs" e] fl la by simp
  have s4: "check_var conv mh fh ?j x e =
            add_error e (''Out of order argument, '' @ local_name x @ '' in '' @ title mh)" for e
    using check_var_out_of_order [OF assms(5) assms(2), of ?i ?j x conv mh e] fi x fl la lb
    by (simp add: same_var_def)
  have s5: "vars_loop conv mh fh (Suc ?j) cs e = e" for e
    using vars_loop_segment [OF assms(5) _ c, of "fas @ [fx] @ fbs @ [fy]" "[]" e] fl la lb by simp
  have "vars_loop conv mh fh 0 (variable_list mh) [] =
        add_error (add_error [] (''Out of order argument, '' @ local_name y @ '' in '' @ title mh))
          (''Out of order argument, '' @ local_name x @ '' in '' @ title mh)"
    unfolding assms(3) by (simp add: vars_loop_append s1 s2 s3 s4 s5)
  then show ?thesis using assms(1,2) ar
    by (simp add: compare_fheader_to_mheader_def Let_def add_error_def)
qed

theorem compare_swapped_scheme_variables_witness:
  "list_all2 (same_var ex_conv
       (ex_header ''T'' ''scheme'' [ex_var ''c'' [''km''], ex_var ''b'' [], ex_var ''a'' [''im'']]))
     ([] @ [ex_var ''a'' [''im'']] @ [ex_var ''b'' []] @ [ex_var ''c'' [''km'']] @ [])
     (variable_list
        (ex_header ''T'' ''scheme'' [ex_var ''a'' [''im''], ex_var ''b'' [], ex_var ''c'' [''km'']]))
   \<and> compare_fheader_to_mheader ex_conv
        (ex_header ''T'' ''scheme'' [ex_var ''c'' [''km''], ex_var ''b'' [], ex_var ''a'' [''im'']])
        (ex_header ''T'' ''scheme'' [ex_var ''a'' [''im''], ex_var ''b'' [], ex_var ''c'' [''km'']])
      = Inr ''Out of order argument, c in T\<newline>Out of order argument, a in T''"
  using compare_swapped_scheme_variables
    [of "ex_header ''T'' ''scheme'' [ex_var ''c'' [''km''], ex_var ''b'' [], ex_var ''a'' [''im'']]"
        "ex_header ''T'' ''scheme'' [ex_var ''a'' [''im''], ex_var ''b'' [], ex_var ''c'' [''km'']]"
        "[]" "ex_var ''c'' [''km'']" "[ex_var ''b'' []]" "ex_var ''a'' [''im'']" "[]" ex_conv]
  by (simp add: ex_defs same_var_def lower_name_defs is_arrayspec_def newline_def)

text \<open>The smallest case: the metadata lists \<open>b, a\<close> where the Fortran scheme declares \<open>a, b\<close>.\<close>

theorem compare_swapped_pair_two_diagnostics:
  "map_sum id error_lines
     (compare_fheader_to_mheader ex_conv
        (ex_header ''T'' ''scheme'' [ex_var ''b'' [], ex_var ''a'' []])
        (ex_header ''T'' ''scheme'' [ex_var ''a'' [], ex_var ''b'' []]))
   = Inr [''Out of order argument, b in T'', ''Out of order argument, a in T'']"
  by (simp add: ex_defs compare_defs error_lines_def)

subsection \<open>Array references\<close>

text \<open>
  C5. A metadata array reference is taken off the metadata count, and at a position
  beyond the Fortran variables it is passed over. At a position within the Fortran
  variables the lookup of its name comes first (line 381), fails, and is reported,
  although lines 396 to 398 mean to skip it: here \<open>a(1)\<close> at position 1 of a module
  header whose Fortran module declares \<open>a\<close> and \<open>b\<close>.
\<close>

theorem compare_array_reference_reported:
  "compare_fheader_to_mheader ex_conv
     (ex_header ''T'' ''module'' [ex_var ''a'' [''im''], ex_var ''a(1)'' []])
     (ex_header ''T'' ''module'' [ex_var ''a'' [''im''], ex_var ''b'' []])
   = Inr ''Variable mismatch in T, no Fortran variable a(1).''"
  by (simp add: ex_defs compare_defs)

subsection \<open>The variable counts\<close>

text \<open>
  C6. With \<open>plain_count\<close> the number of metadata variables that are not array
  references: for a scheme header, more Fortran variables than that give a first line
  that names the metadata header, fewer give one that names the Fortran scheme, and
  only equal counts leave the error string empty before the variables are scanned; for
  the table types \<open>module\<close>, \<open>host\<close> and \<open>ddt\<close>, more Fortran variables leave it empty.
\<close>

theorem arity_reconciliation:
  assumes "header_type mh = header_type fh"
  shows "(header_type fh = ''scheme''
            \<and> plain_count (variable_list mh) < length (variable_list fh) \<longrightarrow>
          (\<exists>rest. compare_fheader_to_mheader conv mh fh =
             Inr (''Variable mismatch in '' @ title mh
                    @ '', variables missing from metadata header.'' @ rest)))
       \<and> (header_type fh = ''scheme''
            \<and> length (variable_list fh) < plain_count (variable_list mh) \<longrightarrow>
          (\<exists>rest. compare_fheader_to_mheader conv mh fh =
             Inr (''Variable mismatch in '' @ title mh
                    @ '', variables missing from Fortran scheme.'' @ rest)))
       \<and> (header_type fh = ''scheme''
            \<and> plain_count (variable_list mh) = length (variable_list fh) \<longrightarrow>
          compare_fheader_to_mheader conv mh fh =
            Inr (vars_loop conv mh fh 0 (variable_list mh) []))
       \<and> (header_type fh \<in> set [''module'', ''host'', ''ddt'']
            \<and> plain_count (variable_list mh) < length (variable_list fh) \<longrightarrow>
          compare_fheader_to_mheader conv mh fh =
            Inr (vars_loop conv mh fh 0 (variable_list mh) []))"
proof -
  let ?ml = "variable_list mh" and ?fl = "variable_list fh"
  have cmp: "compare_fheader_to_mheader conv mh fh =
             Inr (vars_loop conv mh fh 0 ?ml (arity_errors mh fh))"
    using assms by (simp add: compare_fheader_to_mheader_def Let_def)
  have ext: "\<exists>rest. vars_loop conv mh fh 0 ?ml a = a @ rest" for a
    using vars_loop_prefix [of a conv mh fh 0 ?ml] by (auto simp add: prefix_def)
  have c1: "arity_errors mh fh =
            ''Variable mismatch in '' @ title mh @ '', variables missing from metadata header.''"
    if "header_type fh = ''scheme''" and "plain_count ?ml < length ?fl"
    using that
    by (simp add: arity_errors_def arity_etype_def count_mlen_plain
        EXTRA_VARIABLE_TABLE_TYPES_def add_error_Nil)
  have c2: "arity_errors mh fh =
            ''Variable mismatch in '' @ title mh @ '', variables missing from Fortran scheme.''"
    if "header_type fh = ''scheme''" and "length ?fl < plain_count ?ml"
    using that
    by (simp add: arity_errors_def arity_etype_def count_mlen_plain
        EXTRA_VARIABLE_TABLE_TYPES_def add_error_Nil)
  have c3: "arity_errors mh fh = []" if "plain_count ?ml = length ?fl"
    using that by (rule arity_errors_equal_counts)
  have c4: "arity_errors mh fh = []"
    if "header_type fh \<in> set [''module'', ''host'', ''ddt'']" and "plain_count ?ml < length ?fl"
    using that
    by (simp add: arity_errors_def arity_etype_def count_mlen_plain
        EXTRA_VARIABLE_TABLE_TYPES_def)
  show ?thesis
  proof (intro conjI impI)
    assume h: "header_type fh = ''scheme'' \<and> plain_count ?ml < length ?fl"
    from ext [of "arity_errors mh fh"] c1 h cmp
    show "\<exists>rest. compare_fheader_to_mheader conv mh fh =
             Inr (''Variable mismatch in '' @ title mh
                    @ '', variables missing from metadata header.'' @ rest)"
      by auto
  next
    assume h: "header_type fh = ''scheme'' \<and> length ?fl < plain_count ?ml"
    from ext [of "arity_errors mh fh"] c2 h cmp
    show "\<exists>rest. compare_fheader_to_mheader conv mh fh =
             Inr (''Variable mismatch in '' @ title mh
                    @ '', variables missing from Fortran scheme.'' @ rest)"
      by auto
  next
    assume "header_type fh = ''scheme'' \<and> plain_count ?ml = length ?fl"
    with c3 cmp show "compare_fheader_to_mheader conv mh fh = Inr (vars_loop conv mh fh 0 ?ml [])"
      by simp
  next
    assume "header_type fh \<in> set [''module'', ''host'', ''ddt''] \<and> plain_count ?ml < length ?fl"
    with c4 cmp show "compare_fheader_to_mheader conv mh fh = Inr (vars_loop conv mh fh 0 ?ml [])"
      by simp
  qed
qed

theorem arity_reconciliation_witness:
  "header_type (ex_header ''T'' ''scheme'' [ex_var ''a'' [], ex_var ''b'' []]) = ''scheme''
   \<and> plain_count [ex_var ''a'' [], ex_var ''b'' []] = 2
   \<and> length [ex_var ''a'' [], ex_var ''b'' [], ex_var ''c'' []] = 3
   \<and> (\<exists>rest. compare_fheader_to_mheader ex_conv
          (ex_header ''T'' ''scheme'' [ex_var ''a'' [], ex_var ''b'' []])
          (ex_header ''T'' ''scheme'' [ex_var ''a'' [], ex_var ''b'' [], ex_var ''c'' []])
        = Inr (''Variable mismatch in T, variables missing from metadata header.'' @ rest))
   \<and> compare_fheader_to_mheader ex_conv
          (ex_header ''T'' ''module'' [ex_var ''a'' [], ex_var ''b'' []])
          (ex_header ''T'' ''module'' [ex_var ''a'' [], ex_var ''b'' [], ex_var ''c'' []])
        = Inr (vars_loop ex_conv
                 (ex_header ''T'' ''module'' [ex_var ''a'' [], ex_var ''b'' []])
                 (ex_header ''T'' ''module'' [ex_var ''a'' [], ex_var ''b'' [], ex_var ''c'' []])
                 0 [ex_var ''a'' [], ex_var ''b'' []] [])"
  using arity_reconciliation
    [of "ex_header ''T'' ''scheme'' [ex_var ''a'' [], ex_var ''b'' []]"
        "ex_header ''T'' ''scheme'' [ex_var ''a'' [], ex_var ''b'' [], ex_var ''c'' []]" ex_conv]
    arity_reconciliation
    [of "ex_header ''T'' ''module'' [ex_var ''a'' [], ex_var ''b'' []]"
        "ex_header ''T'' ''module'' [ex_var ''a'' [], ex_var ''b'' [], ex_var ''c'' []]" ex_conv]
  by (simp add: ex_header_def ex_var_def plain_count_def is_arrayspec_def)


section \<open>Pairing the headers of one file\<close>

subsection \<open>Formatting a text\<close>

lemma format_from_literal:
  "brace_free lit \<Longrightarrow>
   format_from Literal an args (lit @ rest) out = format_from Literal an args rest (out @ lit)"
  by (induction lit arbitrary: out) (auto simp add: brace_free_def)

lemma py_format_plain:
  assumes "brace_free prev"
  shows "py_format (prev @ ''No matching metadata header found for {} in {}'') [a, b] =
         Some (Inr (prev @ ''No matching metadata header found for '' @ a @ '' in '' @ b))"
proof -
  have "format_from Literal ANS_INIT [a, b] ''No matching metadata header found for {} in {}'' prev
        = Some (Inr (prev @ ''No matching metadata header found for '' @ a @ '' in '' @ b))"
    by (simp add: field_value_def)
  with format_from_literal [OF assms, of ANS_INIT "[a, b]" _ "[]"] show ?thesis
    by (simp add: py_format_def)
qed

lemma format_from_prefix:
  "format_from st an args str out = Some (Inr r) \<Longrightarrow> prefix out r"
proof (induction st an args str out rule: format_from.induct)
  case (1 an args out)
  then show ?case by simp
next
  case (2 an args c cs out)
  then show ?case by (auto split: if_splits dest: append_prefixD)
next
  case (3 an args out)
  then show ?case by simp
next
  case (4 an args c cs out)
  then show ?case
    by (fastforce split: if_splits option.splits sum.splits dest: append_prefixD)
next
  case (5 nm an args out)
  then show ?case by simp
next
  case (6 nm an args c cs out)
  then show ?case
    by (fastforce split: if_splits option.splits sum.splits dest: append_prefixD)
next
  case (7 an args out)
  then show ?case by simp
next
  case (8 an args c cs out)
  then show ?case by (auto split: if_splits dest: append_prefixD)
qed

lemma py_format_starts:
  assumes "c \<noteq> CHR ''{''" and "c \<noteq> CHR ''}''"
    and "py_format (c # cs) args = Some (Inr r)"
  shows "\<exists>r'. r = c # r'"
proof -
  from assms have "format_from Literal ANS_INIT args cs [c] = Some (Inr r)"
    by (simp add: py_format_def)
  from format_from_prefix [OF this] show ?thesis by (auto simp add: prefix_def)
qed

subsection \<open>Taking the Fortran headers\<close>

lemma pop_title_None: "pop_title t fs = None \<longleftrightarrow> t \<notin> set (map title fs)"
  by (induction fs) (auto split: option.splits)

lemma pop_title_Some:
  "pop_title t fs = Some (g, rest) \<Longrightarrow>
   title g = t \<and> rest = remove_title t fs \<and> mset fs = add_mset g (mset rest)"
  by (induction fs arbitrary: g rest) (auto split: if_splits option.splits)

lemma pair_headers_fails_iff:
  "(\<exists>e. pair_headers ms fs ff d0 = Inl e) \<longleftrightarrow> \<not> mset (map title ms) \<subseteq># mset (map title fs)"
proof (induction ms arbitrary: fs d0)
  case Nil
  show ?case by simp
next
  case (Cons m ms)
  show ?case
  proof (cases "pop_title (title m) fs")
    case None
    then have "title m \<notin># mset (map title fs)" by (simp add: pop_title_None)
    then have "\<not> mset (map title (m # ms)) \<subseteq># mset (map title fs)"
      by (auto dest: mset_subset_eqD)
    with None show ?thesis by simp
  next
    case (Some p)
    obtain g rest where p: "p = (g, rest)" by (cases p)
    from pop_title_Some [OF Some [unfolded p]]
    have "mset (map title fs) = add_mset (title m) (mset (map title rest))"
      by (metis image_mset_add_mset mset_map)
    then have "mset (map title (m # ms)) \<subseteq># mset (map title fs)
               \<longleftrightarrow> mset (map title ms) \<subseteq># mset (map title rest)"
      by simp
    with Cons.IH [of rest "d0 @ [(m, g)]"] Some p show ?thesis by simp
  qed
qed

lemma pair_headers_result:
  "pair_headers ms fs ff d0 = Inr (d, rest) \<Longrightarrow>
   (\<exists>d'. d = d0 @ d' \<and> map fst d' = ms \<and> list_all (\<lambda>(m, f). title f = title m) d'
          \<and> mset (map snd d') + mset rest = mset fs)
   \<and> rest = unpaired ms fs"
proof (induction ms arbitrary: fs d0)
  case Nil
  then show ?case by (simp add: unpaired_def)
next
  case (Cons m ms)
  show ?case
  proof (cases "pop_title (title m) fs")
    case None
    with Cons.prems show ?thesis by simp
  next
    case (Some p)
    obtain g fs' where p: "p = (g, fs')" by (cases p)
    from Some p have pop: "pop_title (title m) fs = Some (g, fs')" by simp
    with Cons.prems have rec: "pair_headers ms fs' ff (d0 @ [(m, g)]) = Inr (d, rest)" by simp
    from pop_title_Some [OF pop] have g: "title g = title m"
      and fs': "fs' = remove_title (title m) fs"
      and ms: "mset fs = add_mset g (mset fs')" by simp_all
    from Cons.IH [OF rec] obtain d' where d1: "d = (d0 @ [(m, g)]) @ d'" and d2: "map fst d' = ms"
      and d3: "list_all (\<lambda>(m, f). title f = title m) d'"
      and d4: "mset (map snd d') + mset rest = mset fs'"
      and r: "rest = unpaired ms fs'" by blast
    have "d = d0 @ ((m, g) # d')" using d1 by simp
    moreover have "map fst ((m, g) # d') = m # ms" using d2 by simp
    moreover have "list_all (\<lambda>(m, f). title f = title m) ((m, g) # d')" using d3 g by simp
    moreover have "mset (map snd ((m, g) # d')) + mset rest = mset fs" using d4 ms by simp
    ultimately have "\<exists>d'. d = d0 @ d' \<and> map fst d' = m # ms
        \<and> list_all (\<lambda>(m, f). title f = title m) d'
        \<and> mset (map snd d') + mset rest = mset fs"
      by (intro exI [of _ "(m, g) # d'"] conjI)
    moreover have "rest = unpaired (m # ms) fs" using r fs' by (simp add: unpaired_def)
    ultimately show ?thesis by (rule conjI)
  qed
qed

lemma pair_headers_error:
  "pair_headers ms fs ff d0 = Inl e \<Longrightarrow> \<exists>r. e = CCPPError (''No matching '' @ r)"
  by (induction ms arbitrary: fs d0) (auto split: option.splits)


lemma unmatched_msg_no_variables:
  "\<not> list_ex has_variables fs \<Longrightarrow> unmatched_msg fs mf errmsg sep = Some (Inr errmsg)"
  by (induction fs) simp_all

lemma unmatched_msg_Nil_iff:
  assumes "errmsg = [] \<and> sep = [] \<or> (\<exists>cs. errmsg = CHR ''N'' # cs)"
    and "unmatched_msg fs mf errmsg sep = Some (Inr r)"
  shows "r = [] \<longleftrightarrow> errmsg = [] \<and> \<not> list_ex has_variables fs"
  using assms
proof (induction fs arbitrary: errmsg sep)
  case Nil
  then show ?case by simp
next
  case (Cons f fs)
  show ?case
  proof (cases "has_variables f")
    case False
    with Cons.prems Cons.IH [of errmsg sep] show ?thesis by simp
  next
    case True
    let ?t = "errmsg @ sep @ ''No matching metadata header found for {} in {}''"
    from Cons.prems(1) obtain cs where t: "?t = CHR ''N'' # cs" by auto
    from Cons.prems(2) True obtain e' where f: "py_format ?t [title f, mf] = Some (Inr e')"
      and u: "unmatched_msg fs mf e' newline = Some (Inr r)"
      by (auto split: option.splits sum.splits)
    from py_format_starts [OF _ _ f [unfolded t]] obtain r' where e': "e' = CHR ''N'' # r'"
      by auto
    from Cons.IH [OF _ u] e' have "r \<noteq> []" by simp
    with True show ?thesis by simp
  qed
qed

lemma unmatched_msg_plain:
  assumes "brace_free mf" and "list_all (\<lambda>f. brace_free (title f)) fs"
    and "brace_free errmsg" and "brace_free sep"
  shows "\<exists>r. unmatched_msg fs mf errmsg sep = Some (Inr r) \<and> brace_free r \<and> prefix errmsg r
             \<and> (errmsg = [] \<and> sep = [] \<longrightarrow> r = [] \<or> (\<exists>t. r = ''No matching '' @ t))"
  using assms(2,3,4)
proof (induction fs arbitrary: errmsg sep)
  case Nil
  then show ?case by simp
next
  case (Cons f fs)
  show ?case
  proof (cases "has_variables f")
    case False
    with Cons.prems Cons.IH [of errmsg sep] show ?thesis by simp
  next
    case True
    let ?m = "errmsg @ sep @ ''No matching metadata header found for '' @ title f @ '' in '' @ mf"
    from Cons.prems have bf: "brace_free (errmsg @ sep)" and bt: "brace_free (title f)"
      and rest: "list_all (\<lambda>f. brace_free (title f)) fs"
      by (simp_all add: brace_free_def)
    from py_format_plain [OF bf, of "title f" mf]
    have f: "py_format (errmsg @ sep @ ''No matching metadata header found for {} in {}'')
               [title f, mf] = Some (Inr ?m)" by simp
    have bm: "brace_free ?m" using bf bt assms(1) by (simp add: brace_free_def)
    have bn: "brace_free newline" by (simp add: brace_free_def newline_def)
    from Cons.IH [OF rest bm bn] obtain r where r: "unmatched_msg fs mf ?m newline = Some (Inr r)"
      and br: "brace_free r" and pr: "prefix ?m r" by blast
    from pr obtain s where s: "r = ?m @ s" by (auto simp add: prefix_def)
    have "unmatched_msg (f # fs) mf errmsg sep = Some (Inr r)" using True f r by simp
    moreover have "prefix errmsg r" using s by simp
    moreover have "errmsg = [] \<and> sep = [] \<longrightarrow> (\<exists>t. r = ''No matching '' @ t)"
      using s by simp
    ultimately show ?thesis using br by blast
  qed
qed

text \<open>
  Apart from the text of the message, the pairing does what C8 says. It fails exactly
  when the titles of the metadata headers cannot all be served from the Fortran headers,
  each Fortran header serving at most one metadata header, or when a Fortran header that
  is left over has variables. On success every metadata header, in order, is paired with
  one Fortran header of its title, and the paired Fortran headers together with those
  left over are the Fortran headers of the file, each once. When neither the metadata
  file name nor the title of a left-over header holds a brace, the failure is a
  \<open>CCPPError\<close> whose message starts with \<open>No matching\<close>.
\<close>

lemma match_headers_pairing:
  "((\<exists>e. match_headers mhs fhs mf ff = Inl e) \<longleftrightarrow>
      \<not> mset (map title mhs) \<subseteq># mset (map title fhs) \<or> list_ex has_variables (unpaired mhs fhs))
   \<and> (brace_free mf \<and> list_all (\<lambda>f. brace_free (title f)) (unpaired mhs fhs) \<longrightarrow>
        (\<forall>e. match_headers mhs fhs mf ff = Inl e \<longrightarrow> (\<exists>r. e = CCPPError (''No matching '' @ r))))
   \<and> (\<forall>d. match_headers mhs fhs mf ff = Inr d \<longrightarrow>
         map fst d = mhs \<and> list_all (\<lambda>(m, f). title f = title m) d
         \<and> mset (map snd d) + mset (unpaired mhs fhs) = mset fhs)"
proof (cases "pair_headers mhs fhs ff []")
  case (Inl e)
  then have "\<not> mset (map title mhs) \<subseteq># mset (map title fhs)"
    using pair_headers_fails_iff [of mhs fhs ff "[]"] by auto
  moreover have "\<exists>r. e = CCPPError (''No matching '' @ r)"
    using Inl by (rule pair_headers_error)
  moreover have "match_headers mhs fhs mf ff = Inl e"
    using Inl by (simp add: match_headers_def)
  ultimately show ?thesis by simp
next
  case (Inr p)
  obtain d rest where p: "p = (d, rest)" by (cases p)
  with Inr have ph: "pair_headers mhs fhs ff [] = Inr (d, rest)" by simp
  have sub: "mset (map title mhs) \<subseteq># mset (map title fhs)"
    using pair_headers_fails_iff [of mhs fhs ff "[]"] ph by auto
  from pair_headers_result [OF ph]
  have d: "map fst d = mhs" "list_all (\<lambda>(m, f). title f = title m) d"
    "mset (map snd d) + mset rest = mset fhs" and rest: "rest = unpaired mhs fhs"
    by auto
  define res where "res = (if rest \<noteq> [] then unmatched_msg rest mf [] [] else Some (Inr []))"
  have res': "res = unmatched_msg rest mf [] []"
    by (cases rest) (simp_all add: res_def)
  have mh: "match_headers mhs fhs mf ff =
            (case res of None \<Rightarrow> Inl UndeterminedError | Some (Inl e) \<Rightarrow> Inl e
             | Some (Inr errmsg) \<Rightarrow> if errmsg \<noteq> [] then Inl (CCPPError errmsg) else Inr d)"
    using ph by (simp add: match_headers_def res_def)
  have fail: "(\<exists>e. match_headers mhs fhs mf ff = Inl e) \<longleftrightarrow> list_ex has_variables rest"
  proof (cases "list_ex has_variables rest")
    case False
    from unmatched_msg_no_variables [OF this, of mf "[]" "[]"] res' mh False
    show ?thesis by simp
  next
    case True
    have "\<exists>e. match_headers mhs fhs mf ff = Inl e"
    proof (cases res)
      case None
      with mh show ?thesis by simp
    next
      case (Some x)
      show ?thesis
      proof (cases x)
        case (Inl e)
        with Some mh show ?thesis by simp
      next
        case (Inr r)
        with Some res' have "unmatched_msg rest mf [] [] = Some (Inr r)" by simp
        from unmatched_msg_Nil_iff [OF _ this] True have "r \<noteq> []" by simp
        with Some Inr mh show ?thesis by simp
      qed
    qed
    with True show ?thesis by simp
  qed
  have kind: "\<exists>r. e = CCPPError (''No matching '' @ r)"
    if bf: "brace_free mf" "list_all (\<lambda>f. brace_free (title f)) rest"
      and e: "match_headers mhs fhs mf ff = Inl e" for e
  proof -
    have "brace_free []" by (simp add: brace_free_def)
    from unmatched_msg_plain [OF bf this this] obtain r
      where r: "unmatched_msg rest mf [] [] = Some (Inr r)"
        and st: "r = [] \<or> (\<exists>t. r = ''No matching '' @ t)" by auto
    from e mh res' r have "r \<noteq> []" and "e = CCPPError r" by (auto split: if_splits)
    with st show ?thesis by auto
  qed
  have ok: "d' = d" if "match_headers mhs fhs mf ff = Inr d'" for d'
    using that mh by (auto split: option.splits sum.splits if_splits)
  have c1: "(\<exists>e. match_headers mhs fhs mf ff = Inl e) \<longleftrightarrow>
      \<not> mset (map title mhs) \<subseteq># mset (map title fhs) \<or> list_ex has_variables (unpaired mhs fhs)"
    using fail sub rest by simp
  have c2: "brace_free mf \<and> list_all (\<lambda>f. brace_free (title f)) (unpaired mhs fhs) \<longrightarrow>
        (\<forall>e. match_headers mhs fhs mf ff = Inl e \<longrightarrow> (\<exists>r. e = CCPPError (''No matching '' @ r)))"
    using kind rest by blast
  have c3: "\<forall>d'. match_headers mhs fhs mf ff = Inr d' \<longrightarrow>
         map fst d' = mhs \<and> list_all (\<lambda>(m, f). title f = title m) d'
         \<and> mset (map snd d') + mset (unpaired mhs fhs) = mset fhs"
    using ok d rest by blast
  from c1 c2 c3 show ?thesis by blast
qed

text \<open>
  C8. The claim has every failure of the pairing be the error for an unresolved header.
  Line 461 formats the whole accumulated message at each left-over header with
  variables, so the first title and the metadata file name are read as format text
  again at the second. With a brace pair in the file name and two left-over headers
  with variables, the second call of \<open>str.format\<close> meets three fields for two arguments
  and the pairing ends in an \<open>IndexError\<close>, not in the \<open>CCPPError\<close> with the message
  \<open>No matching metadata header found\<close>.
\<close>

theorem match_headers_brace_in_file_name:
  "match_headers
     [ex_header ''S'' ''scheme'' [ex_var ''a'' []]]
     [ex_header ''S'' ''scheme'' [ex_var ''a'' []],
      ex_header ''A'' ''module'' [ex_var ''x'' []],
      ex_header ''B'' ''module'' [ex_var ''y'' []]]
     ''f{}.meta'' ''f{}.F90''
   = Inl IndexError"
  by (simp add: match_headers_def ex_header_def ex_var_def py_format_def field_value_def
      undetermined_chr_def newline_def)


section \<open>Checking one file\<close>

lemma compare_all_concat:
  "list_all2 (\<lambda>(m, f) s. compare_fheader_to_mheader conv m f = Inr s) d diags \<Longrightarrow>
   compare_all conv d e = Inr (e @ concat diags)"
proof (induction d arbitrary: diags e)
  case Nil
  then show ?case by simp
next
  case (Cons p d)
  obtain m f where p: "p = (m, f)" by (cases p)
  from Cons.prems p obtain s ss where diags: "diags = s # ss"
    and s: "compare_fheader_to_mheader conv m f = Inr s"
    and ss: "list_all2 (\<lambda>(m, f) s. compare_fheader_to_mheader conv m f = Inr s) d ss"
    by (auto simp add: list_all2_Cons1)
  from Cons.IH [OF ss, of "e @ s"] s p diags show ?case by simp
qed

lemma length_split_on: "length (split_on c s) = count_list s c + 1"
  by (induction s) (auto split: list.splits)

text \<open>
  C9. When the headers of a file pair up and the comparison of every pair returns its
  error string, \<open>check_fortran_against_metadata\<close> raises nothing if all these strings are
  empty; otherwise it raises one \<open>CCPPError\<close> whose message is the concatenation of all
  of them, a newline, the number of lines of that concatenation (the strings of
  different pairs are joined without a separator), \<open>error\<close> or \<open>errors\<close>, and the names
  of the metadata file and of the Fortran file.
\<close>

theorem check_fortran_against_metadata_outcome:
  assumes "match_headers mhs fhs mf ff = Inr d"
    and "list_all2 (\<lambda>(m, f) s. compare_fheader_to_mheader conv m f = Inr s) d diags"
  shows "check_fortran_against_metadata conv mhs fhs mf ff =
         (if list_all (\<lambda>s. s = []) diags then Inr ()
          else Inl (CCPPError
                 (concat diags @ newline @ show_nat (length (error_lines (concat diags)))
                    @ '' error'' @ (if 1 < length (error_lines (concat diags)) then ''s'' else [])
                    @ '' found comparing '' @ mf @ '' to '' @ ff)))"
proof -
  have ca: "compare_all conv d [] = Inr (concat diags)"
    using compare_all_concat [OF assms(2), of "[]"] by simp
  have em: "concat diags = [] \<longleftrightarrow> list_all (\<lambda>s. s = []) diags"
    by (simp add: list_all_iff)
  have n: "length (error_lines (concat diags)) = count_list (concat diags) (CHR 0x0A) + 1"
    by (simp add: error_lines_def length_split_on)
  show ?thesis
    using assms(1) ca em
    by (simp add: check_fortran_against_metadata_def consistency_error_def n Let_def)
qed

theorem check_fortran_against_metadata_outcome_witness:
  "check_fortran_against_metadata ex_conv
     [ex_header ''S1'' ''scheme'' [ex_var ''b'' [], ex_var ''a'' []],
      ex_header ''S2'' ''scheme'' [ex_var ''x'' []]]
     [ex_header ''S1'' ''scheme'' [ex_var ''a'' [], ex_var ''b'' []],
      ex_header ''S2'' ''scheme'' [ex_var ''y'' []]]
     ''f.meta'' ''f.F90''
   = Inl (CCPPError (''Out of order argument, b in S1\<newline>Out of order argument, a in S1''
            @ ''Variable mismatch in S2, no Fortran variable x.''
            @ ''\<newline>2 errors found comparing f.meta to f.F90''))
   \<and> check_fortran_against_metadata ex_conv
     [ex_header ''S1'' ''scheme'' [ex_var ''a'' [], ex_var ''b'' []]]
     [ex_header ''S1'' ''scheme'' [ex_var ''a'' [], ex_var ''b'' []]]
     ''f.meta'' ''f.F90'' = Inr ()"
  using check_fortran_against_metadata_outcome
    [of "[ex_header ''S1'' ''scheme'' [ex_var ''b'' [], ex_var ''a'' []],
          ex_header ''S2'' ''scheme'' [ex_var ''x'' []]]"
        "[ex_header ''S1'' ''scheme'' [ex_var ''a'' [], ex_var ''b'' []],
          ex_header ''S2'' ''scheme'' [ex_var ''y'' []]]"
        "''f.meta''" "''f.F90''"
        "[(ex_header ''S1'' ''scheme'' [ex_var ''b'' [], ex_var ''a'' []],
           ex_header ''S1'' ''scheme'' [ex_var ''a'' [], ex_var ''b'' []]),
          (ex_header ''S2'' ''scheme'' [ex_var ''x'' []],
           ex_header ''S2'' ''scheme'' [ex_var ''y'' []])]"
        ex_conv
        "[''Out of order argument, b in S1\<newline>Out of order argument, a in S1'',
          ''Variable mismatch in S2, no Fortran variable x.'']"]
    check_fortran_against_metadata_outcome
    [of "[ex_header ''S1'' ''scheme'' [ex_var ''a'' [], ex_var ''b'' []]]"
        "[ex_header ''S1'' ''scheme'' [ex_var ''a'' [], ex_var ''b'' []]]"
        "''f.meta''" "''f.F90''"
        "[(ex_header ''S1'' ''scheme'' [ex_var ''a'' [], ex_var ''b'' []],
           ex_header ''S1'' ''scheme'' [ex_var ''a'' [], ex_var ''b'' []])]"
        ex_conv "[[]]"]
  by (simp add: ex_defs compare_defs match_headers_def error_lines_def show_nat.simps digit_chr_def)


section \<open>The known derived types\<close>

lemma read_and_check_parse:
  "read_and_check e f kd = Inr mhs \<Longrightarrow> parse_metadata_file e f kd = Inr mhs"
  by (auto simp add: read_and_check_def split: sum.splits)

lemma register_host_known:
  "register_host_headers f hs mh kd = Inr (mh', kd') \<Longrightarrow>
   set kd \<subseteq> set kd' \<and> (\<forall>h\<in>set hs. header_type h = ''ddt'' \<longrightarrow> title h \<in> set kd')"
proof (induction hs arbitrary: mh kd)
  case Nil
  then show ?case by simp
next
  case (Cons h hs)
  let ?kd = "if header_type h = ''ddt'' then kd @ [title h] else kd"
  from Cons.prems have rec: "register_host_headers f hs (mh @ [(title h, h)]) ?kd = Inr (mh', kd')"
    by (auto split: option.splits if_splits)
  from Cons.IH [OF rec] have "set ?kd \<subseteq> set kd'"
    and "\<forall>h\<in>set hs. header_type h = ''ddt'' \<longrightarrow> title h \<in> set kd'" by simp_all
  then show ?case by (auto split: if_splits)
qed

lemma register_scheme_known:
  "register_scheme_headers f hs ml dict kd = Inr (ml', dict', kd') \<Longrightarrow>
   set kd \<subseteq> set kd' \<and> (\<forall>h\<in>set hs. header_type h = ''ddt'' \<longrightarrow> title h \<in> set kd')"
proof (induction hs arbitrary: ml dict kd)
  case Nil
  then show ?case by simp
next
  case (Cons h hs)
  let ?kd = "if header_type h = ''ddt'' then kd @ [title h] else kd"
  from Cons.prems
  have rec: "register_scheme_headers f hs (ml @ [h]) (dict(title h \<mapsto> h)) ?kd = Inr (ml', dict', kd')"
    by (auto split: option.splits if_splits)
  from Cons.IH [OF rec] have "set ?kd \<subseteq> set kd'"
    and "\<forall>h\<in>set hs. header_type h = ''ddt'' \<longrightarrow> title h \<in> set kd'" by simp_all
  then show ?case by (auto split: if_splits)
qed

lemma host_calls_mono:
  "c \<in> set (fst (host_files_loop e fs mh kd)) \<Longrightarrow> set kd \<subseteq> set (snd c)"
proof (induction fs arbitrary: mh kd)
  case Nil
  then show ?case by simp
next
  case (Cons f fs)
  show ?case
  proof (cases "read_and_check e f kd")
    case (Inl err)
    with Cons.prems show ?thesis by simp
  next
    case (Inr mhs)
    show ?thesis
    proof (cases "register_host_headers f mhs mh kd")
      case (Inl err)
      with Inr Cons.prems show ?thesis by simp
    next
      case r: (Inr p)
      obtain mh' kd' where p: "p = (mh', kd')" by (cases p)
      from register_host_known [OF r [unfolded p]] have sub: "set kd \<subseteq> set kd'" by simp
      from Cons.prems Inr r p
      have "c = (f, kd) \<or> c \<in> set (fst (host_files_loop e fs mh' kd'))"
        by (auto split: prod.splits)
      with Cons.IH [of mh' kd'] sub show ?thesis by auto
    qed
  qed
qed

lemma host_calls_forward:
  "i < j \<Longrightarrow> j < length (fst (host_files_loop e fs mh kd)) \<Longrightarrow>
   parse_metadata_file e (fst (fst (host_files_loop e fs mh kd) ! i))
     (snd (fst (host_files_loop e fs mh kd) ! i)) = Inr mhs \<Longrightarrow>
   h \<in> set mhs \<Longrightarrow> header_type h = ''ddt'' \<Longrightarrow>
   title h \<in> set (snd (fst (host_files_loop e fs mh kd) ! j))"
proof (induction fs arbitrary: i j mh kd)
  case Nil
  then show ?case by simp
next
  case (Cons f fs)
  show ?case
  proof (cases "read_and_check e f kd")
    case (Inl err)
    with Cons.prems show ?thesis by simp
  next
    case (Inr mhs0)
    show ?thesis
    proof (cases "register_host_headers f mhs0 mh kd")
      case (Inl err)
      with Inr Cons.prems show ?thesis by simp
    next
      case r: (Inr p)
      obtain mh' kd' where p: "p = (mh', kd')" by (cases p)
      let ?rest = "fst (host_files_loop e fs mh' kd')"
      have calls: "fst (host_files_loop e (f # fs) mh kd) = (f, kd) # ?rest"
        using Inr r p by (simp split: prod.splits)
      from Cons.prems(1) obtain j' where j: "j = Suc j'" by (cases j) simp_all
      with Cons.prems(2) calls have j': "j' < length ?rest" by simp
      show ?thesis
      proof (cases i)
        case 0
        with Cons.prems(3) calls have "parse_metadata_file e f kd = Inr mhs" by simp
        with read_and_check_parse [OF Inr] have "mhs0 = mhs" by simp
        with register_host_known [OF r [unfolded p]] Cons.prems(4,5)
        have "title h \<in> set kd'" by simp
        moreover from j' have "?rest ! j' \<in> set ?rest" by simp
        then have "set kd' \<subseteq> set (snd (?rest ! j'))" by (rule host_calls_mono)
        ultimately show ?thesis using calls j by auto
      next
        case (Suc i')
        with Cons.prems(1) j have "i' < j'" by simp
        from Cons.IH [OF this j'] Cons.prems(3,4,5) calls Suc j
        show ?thesis by simp
      qed
    qed
  qed
qed

lemma scheme_calls_mono:
  "c \<in> set (fst (scheme_files_loop e fs ml dict kd)) \<Longrightarrow> set kd \<subseteq> set (snd c)"
proof (induction fs arbitrary: ml dict kd)
  case Nil
  then show ?case by simp
next
  case (Cons f fs)
  show ?case
  proof (cases "read_and_check e f kd")
    case (Inl err)
    with Cons.prems show ?thesis by simp
  next
    case (Inr mhs)
    show ?thesis
    proof (cases "register_scheme_headers f mhs ml dict kd")
      case (Inl err)
      with Inr Cons.prems show ?thesis by simp
    next
      case r: (Inr p)
      obtain ml' dict' kd' where p: "p = (ml', dict', kd')" by (cases p)
      from register_scheme_known [OF r [unfolded p]] have sub: "set kd \<subseteq> set kd'" by simp
      from Cons.prems Inr r p
      have "c = (f, kd) \<or> c \<in> set (fst (scheme_files_loop e fs ml' dict' kd'))"
        by (auto split: prod.splits)
      with Cons.IH [of ml' dict' kd'] sub show ?thesis by auto
    qed
  qed
qed

lemma scheme_calls_forward:
  "i < j \<Longrightarrow> j < length (fst (scheme_files_loop e fs ml dict kd)) \<Longrightarrow>
   parse_metadata_file e (fst (fst (scheme_files_loop e fs ml dict kd) ! i))
     (snd (fst (scheme_files_loop e fs ml dict kd) ! i)) = Inr mhs \<Longrightarrow>
   h \<in> set mhs \<Longrightarrow> header_type h = ''ddt'' \<Longrightarrow>
   title h \<in> set (snd (fst (scheme_files_loop e fs ml dict kd) ! j))"
proof (induction fs arbitrary: i j ml dict kd)
  case Nil
  then show ?case by simp
next
  case (Cons f fs)
  show ?case
  proof (cases "read_and_check e f kd")
    case (Inl err)
    with Cons.prems show ?thesis by simp
  next
    case (Inr mhs0)
    show ?thesis
    proof (cases "register_scheme_headers f mhs0 ml dict kd")
      case (Inl err)
      with Inr Cons.prems show ?thesis by simp
    next
      case r: (Inr p)
      obtain ml' dict' kd' where p: "p = (ml', dict', kd')" by (cases p)
      let ?rest = "fst (scheme_files_loop e fs ml' dict' kd')"
      have calls: "fst (scheme_files_loop e (f # fs) ml dict kd) = (f, kd) # ?rest"
        using Inr r p by (simp split: prod.splits)
      from Cons.prems(1) obtain j' where j: "j = Suc j'" by (cases j) simp_all
      with Cons.prems(2) calls have j': "j' < length ?rest" by simp
      show ?thesis
      proof (cases i)
        case 0
        with Cons.prems(3) calls have "parse_metadata_file e f kd = Inr mhs" by simp
        with read_and_check_parse [OF Inr] have "mhs0 = mhs" by simp
        with register_scheme_known [OF r [unfolded p]] Cons.prems(4,5)
        have "title h \<in> set kd'" by simp
        moreover from j' have "?rest ! j' \<in> set ?rest" by simp
        then have "set kd' \<subseteq> set (snd (?rest ! j'))" by (rule scheme_calls_mono)
        ultimately show ?thesis using calls j by auto
      next
        case (Suc i')
        with Cons.prems(1) j have "i' < j'" by simp
        from Cons.IH [OF this j'] Cons.prems(3,4,5) calls Suc j
        show ?thesis by simp
      qed
    qed
  qed
qed

lemma parse_host_calls: "fst (parse_host_model_files e fs) = fst (host_files_loop e fs [] [])"
  by (simp add: parse_host_model_files_def split: prod.splits sum.splits)

lemma parse_scheme_calls:
  "fst (parse_scheme_files e fs) = fst (scheme_files_loop e fs [] Map.empty [])"
  by (simp add: parse_scheme_files_def split: prod.splits sum.splits)

lemma scheme_first_call: "hd (fst (scheme_files_loop e (f # fs) ml dict kd)) = (f, kd)"
  by (simp split: sum.splits prod.splits)

lemmas file_defs = capgen_parse_def parse_host_model_files_def parse_scheme_files_def
  read_and_check_def find_associated_fortran_file_def fortran_base_def
  FORTRAN_FILENAME_EXTENSIONS_def check_fortran_against_metadata_def match_headers_def
  duplicate_error_def ex_env_def

text \<open>
  C2, as the code has it. \<open>calls\<close> are the calls of the metadata parser made by
  \<open>parse_host_model_files\<close> or by \<open>parse_scheme_files\<close>. If the headers returned by call
  \<open>i\<close> hold a header of type \<open>ddt\<close> and there is a later call \<open>j\<close> of the same function,
  then that title is among the known derived types passed with call \<open>j\<close>. Each function
  starts its own list: the first call made by \<open>parse_scheme_files\<close> passes the empty
  list, whatever the host files have registered.
\<close>

theorem ddt_known_to_later_files_of_the_pass:
  assumes "calls = fst (parse_host_model_files e files)
           \<or> calls = fst (parse_scheme_files e files)"
    and "i < j" and "j < length calls"
    and "parse_metadata_file e (fst (calls ! i)) (snd (calls ! i)) = Inr mheaders"
    and "h \<in> set mheaders" and "header_type h = ''ddt''"
  shows "title h \<in> set (snd (calls ! j))
         \<and> hd (fst (parse_scheme_files e (f # fs))) = (f, [])"
proof
  from assms(1) show "title h \<in> set (snd (calls ! j))"
  proof
    assume c: "calls = fst (parse_host_model_files e files)"
    from host_calls_forward [of i j e files "[]" "[]" mheaders h] assms(2-6)
    show ?thesis unfolding c parse_host_calls by simp
  next
    assume c: "calls = fst (parse_scheme_files e files)"
    from scheme_calls_forward [of i j e files "[]" Map.empty "[]" mheaders h] assms(2-6)
    show ?thesis unfolding c parse_scheme_calls by simp
  qed
  show "hd (fst (parse_scheme_files e (f # fs))) = (f, [])"
    unfolding parse_scheme_calls by (rule scheme_first_call)
qed

theorem ddt_known_to_later_files_of_the_pass_witness:
  "fst (parse_host_model_files
          (ex_env (ex_header ''state_type'' ''ddt'' [ex_var ''ps'' []])
                  (ex_header ''sch_run'' ''scheme'' [ex_ddt_var ''st'' ''state_type'']))
          [''h.meta'', ''s.meta''])
   = [(''h.meta'', []), (''s.meta'', [''state_type''])]
   \<and> title (ex_header ''state_type'' ''ddt'' [ex_var ''ps'' []])
       \<in> set (snd (fst (parse_host_model_files
          (ex_env (ex_header ''state_type'' ''ddt'' [ex_var ''ps'' []])
                  (ex_header ''sch_run'' ''scheme'' [ex_ddt_var ''st'' ''state_type'']))
          [''h.meta'', ''s.meta'']) ! 1))
   \<and> hd (fst (parse_scheme_files
          (ex_env (ex_header ''state_type'' ''ddt'' [ex_var ''ps'' []])
                  (ex_header ''sch_run'' ''scheme'' [ex_ddt_var ''st'' ''state_type'']))
          (''s.meta'' # []))) = (''s.meta'', [])"
proof -
  let ?e = "ex_env (ex_header ''state_type'' ''ddt'' [ex_var ''ps'' []])
                   (ex_header ''sch_run'' ''scheme'' [ex_ddt_var ''st'' ''state_type''])"
  let ?calls = "fst (parse_host_model_files ?e [''h.meta'', ''s.meta''])"
  have c: "?calls = [(''h.meta'', []), (''s.meta'', [''state_type''])]"
    by (simp add: file_defs ex_defs compare_defs)
  have p: "parse_metadata_file ?e (fst (?calls ! 0)) (snd (?calls ! 0))
           = Inr [ex_header ''state_type'' ''ddt'' [ex_var ''ps'' []]]"
    unfolding c by (simp add: ex_env_def)
  from ddt_known_to_later_files_of_the_pass
    [of ?calls ?e "[''h.meta'', ''s.meta'']" 0 1
        "[ex_header ''state_type'' ''ddt'' [ex_var ''ps'' []]]"
        "ex_header ''state_type'' ''ddt'' [ex_var ''ps'' []]" "''s.meta''" "[]", OF _ _ _ p]
  show ?thesis using c by (simp add: ex_header_def)
qed

text \<open>
  Scenario A of the specification: the host file declares the derived type
  \<open>state_type\<close>, the scheme file comes later and has an argument of that type. The run
  succeeds, and the scheme file is parsed with no known derived type.
\<close>

theorem host_ddt_not_passed_to_scheme_files:
  "capgen_parse
     (ex_env (ex_header ''state_type'' ''ddt'' [ex_var ''ps'' []])
             (ex_header ''sch_run'' ''scheme'' [ex_ddt_var ''st'' ''state_type'']))
     [''h.meta''] [''s.meta'']
   = ([(''h.meta'', []), (''s.meta'', [])],
      Inr ([ex_header ''state_type'' ''ddt'' [ex_var ''ps'' []]],
           [ex_header ''sch_run'' ''scheme'' [ex_ddt_var ''st'' ''state_type'']]))"
  by (simp add: file_defs ex_defs compare_defs)


section \<open>Duplicate titles\<close>

lemma duplicate_error_msg: "\<exists>r. duplicate_error hdr filename oheader = CCPPError (''Duplicate '' @ r)"
  by (simp add: duplicate_error_def)

lemma register_host_fails_iff:
  "(\<exists>err. register_host_headers f hs mh kd = Inl err) \<longleftrightarrow>
   \<not> distinct (map title hs) \<or> list_ex (\<lambda>h. title h \<in> fst ` set mh) hs"
proof (induction hs arbitrary: mh kd)
  case Nil
  show ?case by simp
next
  case (Cons h hs)
  show ?case
  proof (cases "map_of mh (title h)")
    case None
    then have nin: "title h \<notin> fst ` set mh" by (simp add: map_of_eq_None_iff)
    let ?kd = "if header_type h = ''ddt'' then kd @ [title h] else kd"
    have "(\<exists>err. register_host_headers f (h # hs) mh kd = Inl err) \<longleftrightarrow>
          (\<exists>err. register_host_headers f hs (mh @ [(title h, h)]) ?kd = Inl err)"
      using None by simp
    also have "\<dots> \<longleftrightarrow> \<not> distinct (map title hs)
                 \<or> list_ex (\<lambda>h'. title h' \<in> fst ` set (mh @ [(title h, h)])) hs"
      by (rule Cons.IH)
    also have "\<dots> \<longleftrightarrow> \<not> distinct (map title (h # hs))
                 \<or> list_ex (\<lambda>h'. title h' \<in> fst ` set mh) (h # hs)"
      using nin by (auto simp add: list_ex_iff intro: rev_image_eqI)
    finally show ?thesis .
  next
    case (Some oh)
    then have "title h \<in> fst ` set mh" by (metis map_of_eq_None_iff option.distinct(1))
    with Some show ?thesis by simp
  qed
qed

lemma register_host_error:
  "register_host_headers f hs mh kd = Inl err \<Longrightarrow> \<exists>r. err = CCPPError (''Duplicate '' @ r)"
proof (induction hs arbitrary: mh kd)
  case Nil
  then show ?case by simp
next
  case (Cons h hs)
  show ?case
  proof (cases "map_of mh (title h)")
    case None
    with Cons.prems Cons.IH show ?thesis by simp
  next
    case (Some oh)
    with Cons.prems duplicate_error_msg [of h f oh] show ?thesis by auto
  qed
qed

lemma register_scheme_fails_iff:
  "(\<exists>err. register_scheme_headers f hs ml dict kd = Inl err) \<longleftrightarrow>
   \<not> distinct (map title hs) \<or> list_ex (\<lambda>h. title h \<in> dom dict) hs"
proof (induction hs arbitrary: ml dict kd)
  case Nil
  show ?case by simp
next
  case (Cons h hs)
  show ?case
  proof (cases "dict (title h)")
    case None
    then have nin: "title h \<notin> dom dict" by (simp add: domIff)
    let ?kd = "if header_type h = ''ddt'' then kd @ [title h] else kd"
    have "(\<exists>err. register_scheme_headers f (h # hs) ml dict kd = Inl err) \<longleftrightarrow>
          (\<exists>err. register_scheme_headers f hs (ml @ [h]) (dict(title h \<mapsto> h)) ?kd = Inl err)"
      using None by simp
    also have "\<dots> \<longleftrightarrow> \<not> distinct (map title hs)
                 \<or> list_ex (\<lambda>h'. title h' \<in> dom (dict(title h \<mapsto> h))) hs"
      by (rule Cons.IH)
    also have "\<dots> \<longleftrightarrow> \<not> distinct (map title (h # hs))
                 \<or> list_ex (\<lambda>h'. title h' \<in> dom dict) (h # hs)"
      using nin by (auto simp add: list_ex_iff intro: rev_image_eqI)
    finally show ?thesis .
  next
    case (Some oh)
    then have "title h \<in> dom dict" by (simp add: domIff)
    with Some show ?thesis by simp
  qed
qed

lemma register_scheme_error:
  "register_scheme_headers f hs ml dict kd = Inl err \<Longrightarrow> \<exists>r. err = CCPPError (''Duplicate '' @ r)"
proof (induction hs arbitrary: ml dict kd)
  case Nil
  then show ?case by simp
next
  case (Cons h hs)
  show ?case
  proof (cases "dict (title h)")
    case None
    with Cons.prems Cons.IH show ?thesis by simp
  next
    case (Some oh)
    with Cons.prems duplicate_error_msg [of h f oh] show ?thesis by auto
  qed
qed


lemma register_host_keys:
  "register_host_headers f hs mh kd = Inr (mh', kd') \<Longrightarrow> host_keys_ok mh \<Longrightarrow> host_keys_ok mh'"
proof (induction hs arbitrary: mh kd)
  case Nil
  then show ?case by simp
next
  case (Cons h hs)
  show ?case
  proof (cases "map_of mh (title h)")
    case None
    then have nin: "title h \<notin> fst ` set mh" by (simp add: map_of_eq_None_iff)
    with Cons.prems(2) have ok: "host_keys_ok (mh @ [(title h, h)])"
      by (auto simp add: host_keys_ok_def)
    from Cons.prems(1) None obtain kd1 where
      "register_host_headers f hs (mh @ [(title h, h)]) kd1 = Inr (mh', kd')" by simp
    from Cons.IH [OF this ok] show ?thesis .
  next
    case (Some oh)
    with Cons.prems show ?thesis by simp
  qed
qed

lemma host_loop_keys:
  "snd (host_files_loop e fs mh kd) = Inr (mh', kd') \<Longrightarrow> host_keys_ok mh \<Longrightarrow> host_keys_ok mh'"
proof (induction fs arbitrary: mh kd)
  case Nil
  then show ?case by simp
next
  case (Cons f fs)
  show ?case
  proof (cases "read_and_check e f kd")
    case (Inl err)
    with Cons.prems show ?thesis by simp
  next
    case (Inr mhs)
    show ?thesis
    proof (cases "register_host_headers f mhs mh kd")
      case (Inl err)
      with Inr Cons.prems show ?thesis by simp
    next
      case r: (Inr p)
      obtain mh1 kd1 where p: "p = (mh1, kd1)" by (cases p)
      from register_host_keys [OF r [unfolded p] Cons.prems(2)] have ok: "host_keys_ok mh1" .
      from Cons.prems(1) Inr r p have "snd (host_files_loop e fs mh1 kd1) = Inr (mh', kd')"
        by (simp split: prod.splits)
      from Cons.IH [OF this ok] show ?thesis .
    qed
  qed
qed

lemma host_keys_titles: "host_keys_ok mh \<Longrightarrow> distinct (map (title \<circ> snd) mh)"
proof -
  assume ok: "host_keys_ok mh"
  then have "\<forall>x\<in>set mh. (title \<circ> snd) x = fst x"
    by (auto simp add: host_keys_ok_def list_all_iff)
  then have eq: "map (title \<circ> snd) mh = map fst mh" by (rule map_eq_conv [THEN iffD2])
  from ok have "distinct (map fst mh)" by (simp add: host_keys_ok_def)
  then show ?thesis unfolding eq .
qed


lemma register_scheme_keys:
  "register_scheme_headers f hs ml dict kd = Inr (ml', dict', kd') \<Longrightarrow>
   scheme_keys_ok ml dict \<Longrightarrow> scheme_keys_ok ml' dict'"
proof (induction hs arbitrary: ml dict kd)
  case Nil
  then show ?case by simp
next
  case (Cons h hs)
  show ?case
  proof (cases "dict (title h)")
    case None
    then have nin: "title h \<notin> dom dict" by (simp add: domIff)
    with Cons.prems(2) have ok: "scheme_keys_ok (ml @ [h]) (dict(title h \<mapsto> h))"
      by (auto simp add: scheme_keys_ok_def)
    from Cons.prems(1) None obtain kd1 where
      "register_scheme_headers f hs (ml @ [h]) (dict(title h \<mapsto> h)) kd1 = Inr (ml', dict', kd')"
      by simp
    from Cons.IH [OF this ok] show ?thesis .
  next
    case (Some oh)
    with Cons.prems show ?thesis by simp
  qed
qed

lemma scheme_loop_keys:
  "snd (scheme_files_loop e fs ml dict kd) = Inr (ml', dict', kd') \<Longrightarrow>
   scheme_keys_ok ml dict \<Longrightarrow> scheme_keys_ok ml' dict'"
proof (induction fs arbitrary: ml dict kd)
  case Nil
  then show ?case by simp
next
  case (Cons f fs)
  show ?case
  proof (cases "read_and_check e f kd")
    case (Inl err)
    with Cons.prems show ?thesis by simp
  next
    case (Inr mhs)
    show ?thesis
    proof (cases "register_scheme_headers f mhs ml dict kd")
      case (Inl err)
      with Inr Cons.prems show ?thesis by simp
    next
      case r: (Inr p)
      obtain ml1 dict1 kd1 where p: "p = (ml1, dict1, kd1)" by (cases p)
      from register_scheme_keys [OF r [unfolded p] Cons.prems(2)] have ok: "scheme_keys_ok ml1 dict1" .
      from Cons.prems(1) Inr r p
      have "snd (scheme_files_loop e fs ml1 dict1 kd1) = Inr (ml', dict', kd')"
        by (simp split: prod.splits)
      from Cons.IH [OF this ok] show ?thesis .
    qed
  qed
qed

lemma parse_host_distinct:
  "snd (parse_host_model_files e files) = Inr hs \<Longrightarrow> distinct (map title hs)"
proof -
  assume a: "snd (parse_host_model_files e files) = Inr hs"
  then obtain mh kd where l: "snd (host_files_loop e files [] []) = Inr (mh, kd)"
    and hs: "hs = map snd mh"
    by (auto simp add: parse_host_model_files_def split: prod.splits sum.splits)
  have "host_keys_ok []" by (simp add: host_keys_ok_def)
  from host_loop_keys [OF l this] hs show ?thesis by (simp add: host_keys_titles)
qed

lemma parse_scheme_distinct:
  "snd (parse_scheme_files e files) = Inr hs \<Longrightarrow> distinct (map title hs)"
proof -
  assume a: "snd (parse_scheme_files e files) = Inr hs"
  then obtain dict kd where l: "snd (scheme_files_loop e files [] Map.empty []) = Inr (hs, dict, kd)"
    by (auto simp add: parse_scheme_files_def split: prod.splits sum.splits)
  have "scheme_keys_ok [] Map.empty" by (simp add: scheme_keys_ok_def)
  from scheme_loop_keys [OF l this] show ?thesis by (simp add: scheme_keys_ok_def)
qed

text \<open>
  C3, as the code has it. The host headers are registered in one dictionary and the
  scheme headers in another. Registering the headers of a file fails exactly when two of
  them share a title or one of them has a title that is already a key of the dictionary
  of its own kind; the error is the \<open>Duplicate\<close> error, whether or not the two headers
  are otherwise identical. Hence the host headers of a successful run have distinct
  titles, and so have the scheme headers.
\<close>

theorem titles_unique_within_each_collection:
  "((\<exists>err. register_host_headers filename hdrs meta_headers known_ddts = Inl err) \<longleftrightarrow>
      \<not> distinct (map title hdrs) \<or> list_ex (\<lambda>h. title h \<in> fst ` set meta_headers) hdrs)
   \<and> (\<forall>err. register_host_headers filename hdrs meta_headers known_ddts = Inl err \<longrightarrow>
         (\<exists>r. err = CCPPError (''Duplicate '' @ r)))
   \<and> ((\<exists>err. register_scheme_headers filename hdrs scheme_headers header_dict known_ddts = Inl err)
        \<longleftrightarrow> \<not> distinct (map title hdrs) \<or> list_ex (\<lambda>h. title h \<in> dom header_dict) hdrs)
   \<and> (\<forall>err. register_scheme_headers filename hdrs scheme_headers header_dict known_ddts = Inl err
         \<longrightarrow> (\<exists>r. err = CCPPError (''Duplicate '' @ r)))
   \<and> (\<forall>hs. snd (parse_host_model_files e files) = Inr hs \<longrightarrow> distinct (map title hs))
   \<and> (\<forall>hs. snd (parse_scheme_files e files) = Inr hs \<longrightarrow> distinct (map title hs))"
  using register_host_fails_iff [of filename hdrs meta_headers known_ddts]
    register_scheme_fails_iff [of filename hdrs scheme_headers header_dict known_ddts]
    register_host_error [of filename hdrs meta_headers known_ddts]
    register_scheme_error [of filename hdrs scheme_headers header_dict known_ddts]
    parse_host_distinct [of e files] parse_scheme_distinct [of e files]
  by blast

theorem titles_unique_within_each_collection_witness:
  "(\<exists>err. register_host_headers ''h2.meta'' [ex_header ''phys'' ''module'' [ex_var ''ps'' []]]
            [(''phys'', ex_header ''phys'' ''module'' [ex_var ''ps'' []])] [] = Inl err)
   \<and> (\<exists>err. register_scheme_headers ''s2.meta'' [ex_header ''run'' ''scheme'' []]
            [ex_header ''run'' ''scheme'' []] [''run'' \<mapsto> ex_header ''run'' ''scheme'' []] []
            = Inl err)
   \<and> (\<exists>err. snd (parse_host_model_files
            (ex_env (ex_header ''phys'' ''module'' [ex_var ''ps'' []])
                    (ex_header ''phys'' ''scheme'' [ex_var ''ps'' []]))
            [''h.meta'', ''s.meta'']) = Inl err)
   \<and> distinct (map title [ex_header ''phys'' ''module'' [ex_var ''ps'' []]])"
proof -
  let ?e = "ex_env (ex_header ''phys'' ''module'' [ex_var ''ps'' []])
                   (ex_header ''phys'' ''scheme'' [ex_var ''ps'' []])"
  have ok: "snd (parse_host_model_files ?e [''h.meta'']) = Inr [ex_header ''phys'' ''module'' [ex_var ''ps'' []]]"
    by (simp add: file_defs ex_defs compare_defs)
  have dup: "\<exists>err. snd (parse_host_model_files ?e [''h.meta'', ''s.meta'']) = Inl err"
    by (simp add: file_defs ex_defs compare_defs)
  from titles_unique_within_each_collection
    [of "''h2.meta''" "[ex_header ''phys'' ''module'' [ex_var ''ps'' []]]"
        "[(''phys'', ex_header ''phys'' ''module'' [ex_var ''ps'' []])]" "[]"
        "[ex_header ''run'' ''scheme'' []]" "[''run'' \<mapsto> ex_header ''run'' ''scheme'' []]"
        ?e "[''h.meta'']"]
    titles_unique_within_each_collection
    [of "''s2.meta''" "[ex_header ''run'' ''scheme'' []]" "[]" "[]"
        "[ex_header ''run'' ''scheme'' []]" "[''run'' \<mapsto> ex_header ''run'' ''scheme'' []]"
        ?e "[''h.meta'']"]
    ok dup
  show ?thesis by (simp add: ex_header_def)
qed

text \<open>
  A host header and a scheme header of the same run can share a title: the two
  dictionaries are never compared.
\<close>

theorem host_and_scheme_header_share_title:
  "snd (capgen_parse
     (ex_env (ex_header ''phys'' ''module'' [ex_var ''ps'' []])
             (ex_header ''phys'' ''scheme'' [ex_var ''ps'' []]))
     [''h.meta''] [''s.meta''])
   = Inr ([ex_header ''phys'' ''module'' [ex_var ''ps'' []]],
          [ex_header ''phys'' ''scheme'' [ex_var ''ps'' []]])"
  by (simp add: file_defs ex_defs compare_defs)

end
